theory Spec2Isabelle
  imports Complex_Main
begin

section \<open>The layer sprite of src/rendering/canvas-elements/layer-sprite.js\<close>

text \<open>
  The class \<^verbatim>\<open>LayerSprite\<close> is embedded as a record of its fields and one function per
  method, each taking the sprite and returning it updated. JavaScript numbers are modelled
  as \<^typ>\<open>real\<close>: the properties below are about which operands are combined and in
  which order things happen, not about rounding. A field that may hold \<^verbatim>\<open>null\<close> or
  \<^verbatim>\<open>undefined\<close> is an \<^typ>\<open>'a option\<close>; an uncaught exception is the left summand
  of the result, carrying the state the sprite was left in.

  The sprite is taken to be attached to a canvas with a store (\<^verbatim>\<open>this.canvas\<close> is
  read without a guard nearly everywhere). The collaborators that only receive values
  (the renderers, the clipping, the low-resolution canvas, the bitmap cache) are taken not
  to change the sprite; what they are called with is recorded. The constructor, \<^verbatim>\<open>draw\<close>
  and \<^verbatim>\<open>dispose\<close> are not part of the model.
\<close>

subsection \<open>Data\<close>

record point =
  px :: real
  py :: real

text \<open>The \<^verbatim>\<open>_bounds\<close> rectangle of the zCanvas base class.\<close>

record rect =
  b_left :: real
  b_top :: real
  b_width :: real
  b_height :: real

text \<open>
  A drawable surface: a canvas with its size and whether \<^verbatim>\<open>getContext("2d")\<close> yields a
  context (it yields \<^verbatim>\<open>null\<close> otherwise), or an image element, which has no
  \<^verbatim>\<open>getContext\<close> at all.
\<close>

datatype surface = Canvas (cvs_width: real) (cvs_height: real) (has2d: bool) | ImageElement

record effects =
  mirrorX :: bool
  mirrorY :: bool
  rotation :: real
  scale :: real

datatype layer_type = LAYER_GRAPHIC | LAYER_MASK | LAYER_TEXT | LAYER_OTHER

record layer =
  l_id :: string
  l_type :: layer_type
  l_x :: real
  l_y :: real
  l_source :: "surface option"
  l_mask :: "surface option"
  l_maskX :: real
  l_maskY :: real
  l_effects :: effects

text \<open>The tool identifiers of \<^verbatim>\<open>ToolTypes\<close> that the sprite distinguishes.\<close>

datatype tool = DRAG | FILL | ERASER | BRUSH | CLONE | EYEDROPPER | OTHER_TOOL string

record toolOptions =
  opt_size :: "real option"
  opt_radius :: "real option"
  opt_strokes :: "real option"
  coords :: "point option"
  sourceLayerId :: "string option"

text \<open>
  The active colour is a string of the store, or the colour read by the eyedropper from
  the pixel under a pointer position.
\<close>

datatype colour = ColourString string | PixelColour real real

text \<open>The brush: \<^verbatim>\<open>last\<close> is the cursor of points already rendered in the preview.\<close>

record brush =
  colour_of :: colour
  radius :: "real option"
  pointers :: "point list"
  options :: "toolOptions option"
  down :: bool
  last_cursor :: nat

text \<open>
  Snapshots: \<^verbatim>\<open>canvasToBlob\<close> resolves to a blob, \<^verbatim>\<open>blobToResource\<close> turns it into
  a resource handle. Both are opaque here.
\<close>

type_synonym blob = nat

datatype resource = blobToResource blob

text \<open>
  The state objects handed to \<^verbatim>\<open>enqueueState\<close>. A paint state owns the two snapshots
  (its \<^verbatim>\<open>undo\<close> restores the first, its \<^verbatim>\<open>redo\<close> the second); a position state
  holds the values its two closures captured.
\<close>

record pos_state =
  old_left :: real
  old_top :: real
  oldLayerX :: real
  oldLayerY :: real
  newX :: real
  newY :: real
  newLayerX :: real
  newLayerY :: real

datatype history_state =
    PaintState (orgState: "resource option") (newState: resource)
  | PosState pos_state

text \<open>
  Work that completes later: the promise of \<^verbatim>\<open>canvasToBlob\<close> in
  \<^verbatim>\<open>preparePendingPaintState\<close>, the one in \<^verbatim>\<open>storePaintState\<close> (with the
  original snapshot its continuation captured), and the animation frame callback of
  \<^verbatim>\<open>cacheEffects\<close>.
\<close>

datatype task = EncodeOriginal | EncodeResult "resource option" | RenderEffects

text \<open>
  Calls into collaborators outside the class are recorded in order. A drawing call names
  the context it goes to: the one of the layer's mask, of its source, or of the
  low-resolution preview canvas.
\<close>

datatype target = MaskCtx | SourceCtx | TempCtx

datatype overrides = createOverrideConfig "point list"

datatype call =
    GetContext target
  | Save target
  | Restore target
  | SetGlobalCompositeOperation target string
  | ClipContextToSelection target "point list" bool real real "overrides option"
  | Scale target real real
  | SetFillStyle target colour
  | Fill target
  | ClosePath target
  | FillRect target real real real real
  | RenderClonedStroke target brush "string option" "point list"
  | SetBitmap target
  | GetTempCanvas
  | RenderBrushStroke target brush "overrides option"
  | DisposeTempCanvas
  | ClearCacheProperty string
  | RequestAnimationFrame
  | RenderEffectsForLayer
  | CanvasToBlob task
  | SetTimeout nat nat
  | ClearTimeout nat
  | SetDraggable bool
  | Invalidate
  | SuperHandleMove real real
  | GetImageData real real

datatype error = TypeError

text \<open>
  The sprite, followed by the part of the host it changes: the store's active colour, the
  outstanding timers (handle and delay), the pending tasks, the states given to
  \<^verbatim>\<open>enqueueState\<close> and the calls made so far.
\<close>

record sprite =
  layer :: layer
  bounds :: rect
  pointerX :: real
  pointerY :: real
  brush :: brush
  actionTarget :: string
  rafFx :: bool
  interactive :: bool
  selection :: "point list option"
  isDragging :: bool
  isPaintMode :: bool
  isDragMode :: bool
  isColorPicker :: bool
  toolType :: "tool option"
  toolOptions :: "toolOptions option"
  cloneStartCoords :: "point option"
  dragStartOffset :: "point option"
  dragStartEventCoordinates :: "point option"
  tempCanvas :: bool
  pendingPaintState :: "nat option"
  orgSourceToStore :: "resource option"
  activeColor :: colour
  timers :: "(nat \<times> nat) list"
  nextTimer :: nat
  tasks :: "task list"
  enqueued :: "(string \<times> history_state) list"
  calls :: "call list"

text \<open>
  The collaborators whose code is outside this file are parameters: the point
  mathematics, the selection predicates, the pointer slicing of the preview, the brush
  factory, the base class's \<^verbatim>\<open>setBounds\<close> (which updates the bounds object in place),
  and the \<^verbatim>\<open>lowMemory\<close> preference of the store.
\<close>

record host =
  translatePointerRotation :: "real \<Rightarrow> real \<Rightarrow> real \<Rightarrow> real \<Rightarrow> real \<Rightarrow> point"
  rotatePoints :: "point list \<Rightarrow> real \<Rightarrow> real \<Rightarrow> real \<Rightarrow> point list"
  slicePointers :: "brush \<Rightarrow> point list"
  isSelectionClosed :: "point list option \<Rightarrow> bool"
  canDrawOnSelection :: "layer \<Rightarrow> bool"
  BrushFactory_create :: "colour \<Rightarrow> real option \<Rightarrow> point list \<Rightarrow> toolOptions \<Rightarrow> brush"
  super_setBounds :: "real \<Rightarrow> real \<Rightarrow> real \<Rightarrow> real \<Rightarrow> rect \<Rightarrow> rect"
  lowMemory :: bool

type_synonym outcome = "(error \<times> sprite) + sprite"

definition emit :: "call list \<Rightarrow> sprite \<Rightarrow> sprite" where
  "emit cs s = s\<lparr>calls := calls s @ cs\<rparr>"

text \<open>The state a call leaves behind, whether it returned or threw.\<close>

definition state_after :: "outcome \<Rightarrow> sprite" where
  "state_after r = (case r of Inl (e, s) \<Rightarrow> s | Inr s \<Rightarrow> s)"

subsection \<open>Timers and promises of the host\<close>

text \<open>
  \<^verbatim>\<open>setTimeout\<close> hands out a fresh handle, which is never 0 in a browser, so that
  \<^verbatim>\<open>!this._pendingPaintState\<close> holds exactly when the field holds no handle.
  \<^verbatim>\<open>canvasToBlob\<close> returns a promise: its continuation is kept as a pending task until
  the host completes it. \<^verbatim>\<open>enqueueState\<close> is recorded with its key and state.
\<close>

definition setTimeout :: "nat \<Rightarrow> sprite \<Rightarrow> nat \<times> sprite" where
  "setTimeout ms s =
     (nextTimer s,
      s\<lparr>timers := timers s @ [(nextTimer s, ms)],
        nextTimer := Suc (nextTimer s),
        calls := calls s @ [SetTimeout (nextTimer s) ms]\<rparr>)"

definition clearTimeout :: "nat \<Rightarrow> sprite \<Rightarrow> sprite" where
  "clearTimeout h s =
     s\<lparr>timers := filter (\<lambda>t. fst t \<noteq> h) (timers s),
       calls := calls s @ [ClearTimeout h]\<rparr>"

definition canvasToBlob :: "task \<Rightarrow> sprite \<Rightarrow> sprite" where
  "canvasToBlob k s = s\<lparr>tasks := tasks s @ [k], calls := calls s @ [CanvasToBlob k]\<rparr>"

definition enqueueState :: "string \<Rightarrow> history_state \<Rightarrow> sprite \<Rightarrow> sprite" where
  "enqueueState key st s = s\<lparr>enqueued := enqueued s @ [(key, st)]\<rparr>"

subsection \<open>Small methods\<close>

definition setActionTarget :: "string \<Rightarrow> sprite \<Rightarrow> sprite" where
  "setActionTarget tgt s = s\<lparr>actionTarget := tgt\<rparr>"

definition isMaskable :: "sprite \<Rightarrow> bool" where
  "isMaskable s = (l_mask (layer s) \<noteq> None)"

definition isDrawable :: "sprite \<Rightarrow> bool" where
  "isDrawable s = (l_type (layer s) = LAYER_GRAPHIC \<or> isMaskable s)"

text \<open>The remainder operator of JavaScript: the quotient is truncated towards zero.\<close>

definition js_rem :: "real \<Rightarrow> real \<Rightarrow> real" where
  "js_rem a b = a - b * of_int (if 0 \<le> a / b then \<lfloor>a / b\<rfloor> else \<lceil>a / b\<rceil>)"

definition isRotated :: "sprite \<Rightarrow> bool" where
  "isRotated s = (js_rem (rotation (l_effects (layer s))) 360 \<noteq> 0)"

definition isScaled :: "sprite \<Rightarrow> bool" where
  "isScaled s = (scale (l_effects (layer s)) \<noteq> 1)"

definition default_toolOptions :: toolOptions where
  "default_toolOptions =
     \<lparr>opt_size = None, opt_radius = Some 5, opt_strokes = Some 1, coords = None,
      sourceLayerId = None\<rparr>"

definition cacheBrush :: "host \<Rightarrow> colour \<Rightarrow> toolOptions option \<Rightarrow> sprite \<Rightarrow> sprite" where
  "cacheBrush H c topts s =
     (let opts = (case topts of None \<Rightarrow> default_toolOptions | Some t \<Rightarrow> t)
      in s\<lparr>brush := BrushFactory_create H c (opt_size opts) (pointers (brush s)) opts\<rparr>)"

definition storeBrushPointer :: "real \<Rightarrow> real \<Rightarrow> sprite \<Rightarrow> sprite" where
  "storeBrushPointer x y s =
     s\<lparr>brush := (brush s)\<lparr>down := True, pointers := pointers (brush s) @ [\<lparr>px = x, py = y\<rparr>]\<rparr>\<rparr>"

definition cacheEffects :: "sprite \<Rightarrow> sprite" where
  "cacheEffects s =
     (if rafFx s then s
      else s\<lparr>rafFx := True, tasks := tasks s @ [RenderEffects],
             calls := calls s @ [RequestAnimationFrame]\<rparr>)"

definition resetFilterAndRecache :: "sprite \<Rightarrow> sprite" where
  "resetFilterAndRecache s = cacheEffects (emit [ClearCacheProperty ''filterData''] s)"

definition handleActiveLayer :: "string \<Rightarrow> sprite \<Rightarrow> sprite" where
  "handleActiveLayer ident s = s\<lparr>interactive := (l_id (layer s) = ident)\<rparr>"

definition setSelection :: "host \<Rightarrow> point list option \<Rightarrow> sprite \<Rightarrow> sprite" where
  "setSelection H sel s =
     (if isSelectionClosed H sel \<and> canDrawOnSelection H (layer s)
      then s\<lparr>selection := sel\<rparr> else s)"

definition resetSelection :: "sprite \<Rightarrow> sprite" where
  "resetSelection s = s\<lparr>selection := None\<rparr>"

text \<open>
  \<^verbatim>\<open>getX()\<close> and \<^verbatim>\<open>getY()\<close> of the base class read the left and top of the bounds.
\<close>

definition forceMoveListener :: "sprite \<Rightarrow> sprite" where
  "forceMoveListener s =
     s\<lparr>isDragging := True,
       dragStartOffset := Some \<lparr>px = b_left (bounds s), py = b_top (bounds s)\<rparr>,
       dragStartEventCoordinates := Some \<lparr>px = pointerX s, py = pointerY s\<rparr>\<rparr>"

subsection \<open>The bulk pointer transform\<close>

text \<open>
  \<^verbatim>\<open>rotatePointerLists\<close> rewrites every point of the list in place. The points of a
  brush are object literals made one by one in \<^verbatim>\<open>storeBrushPointer\<close>, so no two
  entries are the same object and the in-place loop is a map over the list.
\<close>

definition rotatePointer :: "host \<Rightarrow> layer \<Rightarrow> real \<Rightarrow> real \<Rightarrow> point \<Rightarrow> point" where
  "rotatePointer H L sourceWidth sourceHeight pt =
     (let p = translatePointerRotation H (px pt - l_x L) (py pt - l_y L)
                (sourceWidth * 0.5) (sourceHeight * 0.5) (rotation (l_effects L));
          p1 = (if mirrorX (l_effects L) then p\<lparr>px := px p - sourceWidth\<rparr> else p);
          p2 = (if mirrorY (l_effects L) then p1\<lparr>py := py p1 - sourceHeight\<rparr> else p1)
      in pt\<lparr>px := px p2, py := py p2\<rparr>)"

fun rotatePointerLists :: "host \<Rightarrow> point list \<Rightarrow> layer \<Rightarrow> real \<Rightarrow> real \<Rightarrow> point list" where
  "rotatePointerLists H [] L sourceWidth sourceHeight = []"
| "rotatePointerLists H (pt # rest) L sourceWidth sourceHeight =
     rotatePointer H L sourceWidth sourceHeight pt
       # rotatePointerLists H rest L sourceWidth sourceHeight"

subsection \<open>Snapshots for the history\<close>

definition debouncePaintStore :: "nat \<Rightarrow> sprite \<Rightarrow> sprite" where
  "debouncePaintStore timeout s =
     (let (h, s') = setTimeout timeout s in s'\<lparr>pendingPaintState := Some h\<rparr>)"

definition preparePendingPaintState :: "sprite \<Rightarrow> sprite" where
  "preparePendingPaintState s = debouncePaintStore 5000 (canvasToBlob EncodeOriginal s)"

text \<open>\<^verbatim>\<open>storePaintState\<close> returns \<^verbatim>\<open>true\<close>, \<^verbatim>\<open>false\<close> or a promise.\<close>

datatype ret = ReturnedBool bool | ReturnedPromise

definition storePaintState :: "sprite \<Rightarrow> ret \<times> sprite" where
  "storePaintState s =
     (case pendingPaintState s of
        None \<Rightarrow> (ReturnedBool True, s)
      | Some h \<Rightarrow>
          (let s1 = clearTimeout h s
           in if down (brush s1) then (ReturnedBool False, debouncePaintStore 1000 s1)
              else (ReturnedPromise,
                    canvasToBlob (EncodeResult (orgSourceToStore s1))
                      (s1\<lparr>pendingPaintState := None, orgSourceToStore := None\<rparr>))))"

subsection \<open>Painting\<close>

text \<open>
  The clip that \<^verbatim>\<open>paint\<close> establishes for an active selection: the points (rotated
  for a rotated layer) and the offset \<^verbatim>\<open>sX\<close>, \<^verbatim>\<open>sY\<close>.
\<close>

definition selectionClip :: "host \<Rightarrow> sprite \<Rightarrow> (point list \<times> real \<times> real) option" where
  "selectionClip H s =
     (case selection s of
        None \<Rightarrow> None
      | Some pts \<Rightarrow>
          if isRotated s
          then Some (rotatePoints H pts (b_width (bounds s) * 0.5) (b_height (bounds s) * 0.5)
                       (rotation (l_effects (layer s))), 0, 0)
          else Some (pts, b_left (bounds s), b_top (bounds s)))"

text \<open>The closing lines of \<^verbatim>\<open>paint\<close>: the recache, unless a stroke is in progress.\<close>

definition paint_finish :: "sprite \<Rightarrow> sprite" where
  "paint_finish s = (if \<not> down (brush s) then resetFilterAndRecache s else s)"

text \<open>
  The brush and eraser branch. While the brush is down the stroke goes to the preview
  canvas with an override configuration; otherwise the whole pointer list is transformed
  in place and rendered on the context chosen at the start.
\<close>

definition paint_brush ::
  "host \<Rightarrow> target \<Rightarrow> real \<Rightarrow> real \<Rightarrow> (point list \<times> real \<times> real) option \<Rightarrow> sprite \<Rightarrow> sprite" where
  "paint_brush H tgt w h clip s =
     (if down (brush s) then
        (let ptrs = slicePointers H (brush s);
             s1 = (if tempCanvas s then s else emit [GetTempCanvas] (s\<lparr>tempCanvas := True\<rparr>));
             ov = createOverrideConfig ptrs;
             s2 = emit ([Restore tgt] @
                    (case clip of
                       None \<Rightarrow> []
                     | Some (pts, sX, sY) \<Rightarrow>
                         [ClipContextToSelection TempCtx pts False
                            (sX - b_left (bounds s)) (sY - b_top (bounds s)) (Some ov)])) s1
         in emit [RenderBrushStroke TempCtx (brush s2) (Some ov), Restore TempCtx] s2)
      else
        (let s1 = s\<lparr>brush := (brush s)\<lparr>pointers :=
                      rotatePointerLists H (pointers (brush s)) (layer s) w h\<rparr>\<rparr>
         in emit [RenderBrushStroke tgt (brush s1) None, Restore tgt] s1))"

text \<open>
  The calls of \<^verbatim>\<open>paint\<close> between getting the context and the dispatch by tool:
  save, the eraser's compositing mode, the clip of an active selection, the mirror scale.
\<close>

definition paint_begin :: "host \<Rightarrow> target \<Rightarrow> sprite \<Rightarrow> call list" where
  "paint_begin H tgt s =
     [Save tgt] @
     (if toolType s = Some ERASER then [SetGlobalCompositeOperation tgt ''destination-out'']
      else []) @
     (case selectionClip H s of
        None \<Rightarrow> []
      | Some (pts, sX, sY) \<Rightarrow>
          [ClipContextToSelection tgt pts (toolType s = Some FILL) sX sY None]) @
     [Scale tgt (if mirrorX (l_effects (layer s)) then - 1 else 1)
                (if mirrorY (l_effects (layer s)) then - 1 else 1)]"

text \<open>Everything of \<^verbatim>\<open>paint\<close> after the context and its canvas size are known.\<close>

definition paint_draw :: "host \<Rightarrow> target \<Rightarrow> real \<Rightarrow> real \<Rightarrow> sprite \<Rightarrow> outcome" where
  "paint_draw H tgt w h s0 =
     (let isCloneStamp = (toolType s0 = Some CLONE);
          isFillMode = (toolType s0 = Some FILL);
          clip = selectionClip H s0;
          s = emit (paint_begin H tgt s0) s0
      in if isFillMode then
           Inr (paint_finish (emit ([SetFillStyle tgt (activeColor s)] @
                  (if selection s \<noteq> None then [Fill tgt, ClosePath tgt]
                   else [FillRect tgt 0 0 w h]) @ [Restore tgt]) s))
         else if isCloneStamp then
           (if down (brush s) then
              (case toolOptions s of
                 None \<Rightarrow> Inl (TypeError, s)
               | Some opts \<Rightarrow>
                   Inr (paint_finish (emit
                     [RenderClonedStroke tgt (brush s) (sourceLayerId opts)
                        (rotatePointerLists H (slicePointers H (brush s)) (layer s) w h),
                      SetBitmap tgt, Restore tgt] s)))
            else Inr (paint_finish (emit [Restore tgt] s)))
         else Inr (paint_finish (paint_brush H tgt w h clip s)))"

text \<open>
  \<^verbatim>\<open>paint\<close>: start a snapshot cycle if none is pending, pick the surface (the mask of
  a maskable layer, the source otherwise), ask it for its context and read the canvas
  size from the context. A missing surface, an image element
  and a canvas that yields no context all end in a \<^verbatim>\<open>TypeError\<close>, the last one when
  \<^verbatim>\<open>ctx.canvas\<close> is read.
\<close>

definition drawSurface :: "sprite \<Rightarrow> surface option" where
  "drawSurface s = (if isMaskable s then l_mask (layer s) else l_source (layer s))"

definition drawTarget :: "sprite \<Rightarrow> target" where
  "drawTarget s = (if isMaskable s then MaskCtx else SourceCtx)"

definition paint :: "host \<Rightarrow> sprite \<Rightarrow> outcome" where
  "paint H s =
     (let s1 = (if pendingPaintState s = None then preparePendingPaintState s else s);
          tgt = drawTarget s1
      in case drawSurface s1 of
           None \<Rightarrow> Inl (TypeError, s1)
         | Some ImageElement \<Rightarrow> Inl (TypeError, s1)
         | Some (Canvas w h live) \<Rightarrow>
             if live then paint_draw H tgt w h (emit [GetContext tgt] s1)
             else Inl (TypeError, emit [GetContext tgt] s1))"

subsection \<open>Tool modes\<close>

definition invalidate :: "sprite \<Rightarrow> sprite" where
  "invalidate s = emit [Invalidate] s"

definition setDraggable :: "bool \<Rightarrow> sprite \<Rightarrow> sprite" where
  "setDraggable b s = emit [SetDraggable b] s"

definition handleActiveTool ::
  "host \<Rightarrow> tool option \<Rightarrow> toolOptions option \<Rightarrow> point list option \<Rightarrow> sprite \<Rightarrow> sprite" where
  "handleActiveTool H tk topts docSelection s =
     (let s1 = s\<lparr>isDragging := False, isPaintMode := False, isDragMode := False,
                 isColorPicker := False, selection := None, toolType := None,
                 toolOptions := None, cloneStartCoords := None\<rparr>;
          s2 = snd (storePaintState s1)
      in if \<not> interactive s2 \<or> tk = None then s2
         else
           (let s3 = s2\<lparr>toolType := tk, toolOptions := topts\<rparr>
            in invalidate
                 (if tk = Some DRAG then setDraggable True (s3\<lparr>isDragMode := True\<rparr>)
                  else if tk \<in> {Some FILL, Some ERASER, Some BRUSH, Some CLONE} then
                    setSelection H docSelection
                      (cacheBrush H (activeColor s3) topts
                         ((setDraggable True (forceMoveListener s3))\<lparr>isPaintMode := True\<rparr>))
                  else if tk = Some EYEDROPPER then s3\<lparr>isColorPicker := True\<rparr>
                  else setDraggable False s3)))"

subsection \<open>Bounds\<close>

text \<open>
  \<^verbatim>\<open>setBounds\<close>: the left and top before the change, the call of the base class with
  the old size when a size of 0 was given, the shift of the layer by the change of left
  and top, and the position state for the history.
\<close>

definition setBounds :: "host \<Rightarrow> real \<Rightarrow> real \<Rightarrow> real \<Rightarrow> real \<Rightarrow> sprite \<Rightarrow> sprite" where
  "setBounds H x y w h s =
     (let bnds = bounds s;
          lft = b_left bnds;
          tp = b_top bnds;
          oldX = l_x (layer s);
          oldY = l_y (layer s);
          (w', h') = (if w = 0 \<or> h = 0 then (b_width bnds, b_height bnds) else (w, h));
          bnds' = super_setBounds H x y w' h' bnds;
          nX = b_left bnds';
          nY = b_top bnds';
          nLayerX = l_x (layer s) + (nX - lft);
          nLayerY = l_y (layer s) + (nY - tp);
          s1 = s\<lparr>bounds := bnds', layer := (layer s)\<lparr>l_x := nLayerX, l_y := nLayerY\<rparr>\<rparr>
      in invalidate
           (enqueueState (''spritePos_'' @ l_id (layer s1))
              (PosState \<lparr>old_left = lft, old_top = tp, oldLayerX = oldX, oldLayerY = oldY,
                         newX = nX, newY = nY, newLayerX = nLayerX, newLayerY = nLayerY\<rparr>) s1))"

text \<open>
  \<^verbatim>\<open>positionSpriteFromHistory\<close> looks the sprite of the layer up; \<open>found\<close> says
  whether the lookup returns this sprite (it returns nothing for a disposed one).
\<close>

definition positionSpriteFromHistory :: "bool \<Rightarrow> real \<Rightarrow> real \<Rightarrow> sprite \<Rightarrow> sprite" where
  "positionSpriteFromHistory found x y s =
     (if found then invalidate (s\<lparr>bounds := (bounds s)\<lparr>b_left := x, b_top := y\<rparr>\<rparr>) else s)"

text \<open>The two closures of a position state.\<close>

definition pos_undo :: "bool \<Rightarrow> pos_state \<Rightarrow> sprite \<Rightarrow> sprite" where
  "pos_undo found st s =
     (let s1 = positionSpriteFromHistory found (old_left st) (old_top st) s
      in s1\<lparr>layer := (layer s1)\<lparr>l_x := oldLayerX st, l_y := oldLayerY st\<rparr>\<rparr>)"

definition pos_redo :: "bool \<Rightarrow> pos_state \<Rightarrow> sprite \<Rightarrow> sprite" where
  "pos_redo found st s =
     (let s1 = positionSpriteFromHistory found (newX st) (newY st) s
      in s1\<lparr>layer := (layer s1)\<lparr>l_x := newLayerX st, l_y := newLayerY st\<rparr>\<rparr>)"

subsection \<open>Pointer handlers\<close>

definition isTouch :: "string \<Rightarrow> bool" where
  "isTouch ty = (take 5 ty = ''touch'')"

definition handlePress :: "host \<Rightarrow> real \<Rightarrow> real \<Rightarrow> string \<Rightarrow> sprite \<Rightarrow> outcome" where
  "handlePress H x y ty s =
     (let s1 = (if isTouch ty then s\<lparr>pointerX := x, pointerY := y\<rparr> else s)
      in if isColorPicker s1 then
           Inr ((emit [GetImageData x y] s1)\<lparr>activeColor := PixelColour x y\<rparr>)
         else if isPaintMode s1 then
           (if toolType s1 = Some CLONE then
              (case toolOptions s1 of
                 None \<Rightarrow> Inl (TypeError, s1)
               | Some opts \<Rightarrow>
                   if coords opts = None
                   then Inr (s1\<lparr>toolOptions := Some (opts\<lparr>coords := Some \<lparr>px = x, py = y\<rparr>\<rparr>)\<rparr>)
                   else Inr (storeBrushPointer x y
                          (if cloneStartCoords s1 = None
                           then s1\<lparr>cloneStartCoords := Some \<lparr>px = x, py = y\<rparr>\<rparr> else s1)))
            else if toolType s1 = Some FILL then paint H s1
            else Inr (storeBrushPointer x y s1))
         else Inr s1)"

definition handleMove_brush :: "real \<Rightarrow> real \<Rightarrow> sprite \<Rightarrow> sprite" where
  "handleMove_brush x y s = (if down (brush s) then storeBrushPointer x y s else s)"

definition handleMove :: "real \<Rightarrow> real \<Rightarrow> string \<Rightarrow> sprite \<Rightarrow> outcome" where
  "handleMove x y ty s =
     (let s1 = (if \<not> isTouch ty then s\<lparr>pointerX := x, pointerY := y\<rparr> else s)
      in if \<not> isPaintMode s1 then
           (if actionTarget s1 = ''mask'' then
              (case (dragStartOffset s1, dragStartEventCoordinates s1) of
                 (Some off, Some start) \<Rightarrow>
                   Inr (handleMove_brush x y (resetFilterAndRecache
                     (s1\<lparr>layer := (layer s1)
                        \<lparr>l_maskX := px off + ((x - b_left (bounds s1)) - px start),
                         l_maskY := py off + ((y - b_top (bounds s1)) - py start)\<rparr>\<rparr>)))
               | _ \<Rightarrow> Inl (TypeError, s1))
            else if isDragMode s1 then Inr (emit [SuperHandleMove x y] s1)
            else Inr (handleMove_brush x y s1))
         else Inr (handleMove_brush x y s1))"

definition handleRelease :: "host \<Rightarrow> real \<Rightarrow> real \<Rightarrow> sprite \<Rightarrow> outcome" where
  "handleRelease H x y s =
     (if down (brush s) then
        (let s1 = emit [DisposeTempCanvas] s;
             s2 = s1\<lparr>tempCanvas := False, brush := (brush s1)\<lparr>down := False, last_cursor := 0\<rparr>\<rparr>
         in case paint H s2 of
              Inl err \<Rightarrow> Inl err
            | Inr s3 \<Rightarrow>
                (let s4 = s3\<lparr>brush := (brush s3)\<lparr>pointers := []\<rparr>\<rparr>;
                     s5 = (if \<not> lowMemory H then snd (storePaintState s4) else s4)
                 in Inr (if isPaintMode s5 then forceMoveListener s5 else s5)))
      else Inr (if isPaintMode s then forceMoveListener s else s))"

definition update :: "host \<Rightarrow> sprite \<Rightarrow> outcome" where
  "update H s =
     (if down (brush s) then
        (case paint H s of
           Inl err \<Rightarrow> Inl err
         | Inr s1 \<Rightarrow> Inr (s1\<lparr>brush := (brush s1)\<lparr>last_cursor := length (pointers (brush s1))\<rparr>\<rparr>))
      else Inr s)"

subsection \<open>The host's event loop\<close>

text \<open>
  A pending task completes: the promise of \<^verbatim>\<open>preparePendingPaintState\<close> stores the
  original snapshot, the promise of \<^verbatim>\<open>storePaintState\<close> enqueues the paint state, the
  animation frame renders the effects and lowers the flag.
\<close>

definition completeTask :: "task \<Rightarrow> blob \<Rightarrow> sprite \<Rightarrow> sprite" where
  "completeTask k b s =
     (case k of
        EncodeOriginal \<Rightarrow> s\<lparr>orgSourceToStore := Some (blobToResource b)\<rparr>
      | EncodeResult org \<Rightarrow>
          enqueueState (''spritePaint_'' @ l_id (layer s)) (PaintState org (blobToResource b)) s
      | RenderEffects \<Rightarrow> (emit [RenderEffectsForLayer] s)\<lparr>rafFx := False\<rparr>)"

datatype event =
    Press real real string
  | Move real real string
  | Release real real
  | Frame
  | TimerFired nat
  | TaskDone nat blob
  | ActiveTool "tool option" "toolOptions option" "point list option"

text \<open>
  One turn of the event loop. A timer that is outstanding fires by calling
  \<^verbatim>\<open>storePaintState\<close>; the task at a position of the pending list completes.
\<close>

definition step :: "host \<Rightarrow> event \<Rightarrow> sprite \<Rightarrow> outcome" where
  "step H ev s =
     (case ev of
        Press x y ty \<Rightarrow> handlePress H x y ty s
      | Move x y ty \<Rightarrow> handleMove x y ty s
      | Release x y \<Rightarrow> handleRelease H x y s
      | Frame \<Rightarrow> update H s
      | TimerFired t \<Rightarrow>
          if t \<in> fst ` set (timers s)
          then Inr (snd (storePaintState (s\<lparr>timers := filter (\<lambda>e. fst e \<noteq> t) (timers s)\<rparr>)))
          else Inr s
      | TaskDone i b \<Rightarrow>
          if i < length (tasks s)
          then Inr (completeTask (tasks s ! i) b
                 (s\<lparr>tasks := take i (tasks s) @ drop (Suc i) (tasks s)\<rparr>))
          else Inr s
      | ActiveTool tk topts sel \<Rightarrow> Inr (handleActiveTool H tk topts sel s))"

text \<open>An uncaught exception ends the turn; the loop goes on with the state as it is.\<close>

fun run :: "host \<Rightarrow> event list \<Rightarrow> sprite \<Rightarrow> sprite" where
  "run H [] s = s"
| "run H (ev # evs) s = run H evs (state_after (step H ev s))"

section \<open>Observations and example states\<close>

text \<open>The calls a method added to the record of calls.\<close>

definition new_calls :: "sprite \<Rightarrow> sprite \<Rightarrow> call list" where
  "new_calls s s' = drop (length (calls s)) (calls s')"

text \<open>The contexts asked for with \<^verbatim>\<open>getContext\<close>, in order.\<close>

fun requested :: "call list \<Rightarrow> target list" where
  "requested [] = []"
| "requested (GetContext t # cs) = t # requested cs"
| "requested (c # cs) = requested cs"

text \<open>The brush strokes rendered: the context, the brush as handed over, the overrides.\<close>

fun renders :: "call list \<Rightarrow> (target \<times> brush \<times> overrides option) list" where
  "renders [] = []"
| "renders (RenderBrushStroke t b ov # cs) = (t, b, ov) # renders cs"
| "renders (c # cs) = renders cs"

text \<open>
  Snapshot cycles: how many were started (one encode of the original each), how many
  commits were requested (one encode of the result each), how many of those are still
  being encoded, and how many paint states reached the history.
\<close>

fun starts :: "call list \<Rightarrow> nat" where
  "starts [] = 0"
| "starts (CanvasToBlob EncodeOriginal # cs) = Suc (starts cs)"
| "starts (c # cs) = starts cs"

fun commitCalls :: "call list \<Rightarrow> nat" where
  "commitCalls [] = 0"
| "commitCalls (CanvasToBlob (EncodeResult org) # cs) = Suc (commitCalls cs)"
| "commitCalls (c # cs) = commitCalls cs"

fun commitTasks :: "task list \<Rightarrow> nat" where
  "commitTasks [] = 0"
| "commitTasks (EncodeResult org # ks) = Suc (commitTasks ks)"
| "commitTasks (k # ks) = commitTasks ks"

fun paintEntries :: "(string \<times> history_state) list \<Rightarrow> nat" where
  "paintEntries [] = 0"
| "paintEntries ((key, PaintState org new) # es) = Suc (paintEntries es)"
| "paintEntries (e # es) = paintEntries es"

text \<open>The timer calls among the calls made.\<close>

fun timerCalls :: "call list \<Rightarrow> call list" where
  "timerCalls [] = []"
| "timerCalls (SetTimeout t ms # cs) = SetTimeout t ms # timerCalls cs"
| "timerCalls (ClearTimeout t # cs) = ClearTimeout t # timerCalls cs"
| "timerCalls (c # cs) = timerCalls cs"

text \<open>
  The bookkeeping of snapshot cycles at the end of a turn of the event loop: the only
  outstanding timer is the one of the pending cycle; every started cycle is pending or
  has had its commit requested; every requested commit is in the history or still being
  encoded.
\<close>

definition cycle_inv :: "sprite \<Rightarrow> bool" where
  "cycle_inv s =
     (map fst (timers s) = (case pendingPaintState s of None \<Rightarrow> [] | Some t \<Rightarrow> [t]) \<and>
      starts (calls s) =
        commitCalls (calls s) + (if pendingPaintState s = None then 0 else 1) \<and>
      commitCalls (calls s) = paintEntries (enqueued s) + commitTasks (tasks s))"

text \<open>Two states that agree on everything the bookkeeping looks at.\<close>

definition same_cycle :: "sprite \<Rightarrow> sprite \<Rightarrow> bool" where
  "same_cycle s s' =
     (timers s' = timers s \<and> nextTimer s' = nextTimer s \<and>
      pendingPaintState s' = pendingPaintState s \<and> enqueued s' = enqueued s \<and>
      commitTasks (tasks s') = commitTasks (tasks s) \<and>
      starts (calls s') = starts (calls s) \<and>
      commitCalls (calls s') = commitCalls (calls s) \<and>
      timerCalls (calls s') = timerCalls (calls s))"

text \<open>
  A host to evaluate the model with: layers at rotation 0 (the point mathematics returns
  its input), a selection closed when there is one, selections allowed on graphic layers,
  a base class that stores the bounds it is given.
\<close>

definition host0 :: host where
  "host0 =
     \<lparr>translatePointerRotation = (\<lambda>x y cx cy r. \<lparr>px = x, py = y\<rparr>),
      rotatePoints = (\<lambda>pts cx cy r. pts),
      slicePointers = (\<lambda>b. drop (last_cursor b) (pointers b)),
      isSelectionClosed = (\<lambda>sel. sel \<noteq> None),
      canDrawOnSelection = (\<lambda>L. l_type L = LAYER_GRAPHIC),
      BrushFactory_create = (\<lambda>c r ps opts.
         \<lparr>colour_of = c, radius = r, pointers = ps, options = Some opts, down = False,
          last_cursor = 0\<rparr>),
      super_setBounds = (\<lambda>x y w h b. \<lparr>b_left = x, b_top = y, b_width = w, b_height = h\<rparr>),
      lowMemory = False\<rparr>"

definition layer0 :: layer where
  "layer0 =
     \<lparr>l_id = ''layer1'', l_type = LAYER_GRAPHIC, l_x = 0, l_y = 0,
      l_source = Some (Canvas 100 80 True), l_mask = None, l_maskX = 0, l_maskY = 0,
      l_effects = \<lparr>mirrorX = False, mirrorY = False, rotation = 0, scale = 1\<rparr>\<rparr>"

definition brush0 :: brush where
  "brush0 =
     \<lparr>colour_of = ColourString ''rgba(255,0,0,1)'', radius = None, pointers = [],
      options = None, down = False, last_cursor = 0\<rparr>"

text \<open>An interactive sprite on a graphic layer of 100 by 80, no tool chosen yet.\<close>

definition sprite0 :: sprite where
  "sprite0 =
     \<lparr>layer = layer0,
      bounds = \<lparr>b_left = 0, b_top = 0, b_width = 100, b_height = 80\<rparr>,
      pointerX = 0, pointerY = 0, brush = brush0, actionTarget = ''source'', rafFx = False,
      interactive = True, selection = None, isDragging = False, isPaintMode = False,
      isDragMode = False, isColorPicker = False, toolType = None, toolOptions = None,
      cloneStartCoords = None, dragStartOffset = None, dragStartEventCoordinates = None,
      tempCanvas = False, pendingPaintState = None, orgSourceToStore = None,
      activeColor = ColourString ''rgba(255,0,0,1)'', timers = [], nextTimer = 1,
      tasks = [], enqueued = [], calls = []\<rparr>"

text \<open>A layer at (10, 20), mirrored horizontally.\<close>

definition mirrored_layer :: layer where
  "mirrored_layer = layer0\<lparr>l_x := 10, l_y := 20,
     l_effects := \<lparr>mirrorX = True, mirrorY = False, rotation = 0, scale = 1\<rparr>\<rparr>"

text \<open>The same sprite with the brush tool on a layer that has a mask.\<close>

definition masked_sprite :: sprite where
  "masked_sprite =
     sprite0\<lparr>layer := layer0\<lparr>l_mask := Some (Canvas 100 80 True)\<rparr>,
       toolType := Some BRUSH, isPaintMode := True\<rparr>"

text \<open>The same sprite with the brush tool on a layer whose source yields no context.\<close>

definition dead_sprite :: sprite where
  "dead_sprite =
     sprite0\<lparr>layer := layer0\<lparr>l_source := Some (Canvas 100 80 False)\<rparr>,
       toolType := Some BRUSH, isPaintMode := True\<rparr>"

text \<open>
  The calls of \<^verbatim>\<open>paint\<close> before and after it renders the stroke of a brush that is up.
\<close>

definition before_stroke :: "host \<Rightarrow> sprite \<Rightarrow> call list" where
  "before_stroke H s =
     (if pendingPaintState s = None
      then [CanvasToBlob EncodeOriginal, SetTimeout (nextTimer s) 5000] else []) @
     GetContext (drawTarget s) # paint_begin H (drawTarget s) s"

definition after_stroke :: "sprite \<Rightarrow> call list" where
  "after_stroke s =
     [Restore (drawTarget s), ClearCacheProperty ''filterData''] @
     (if rafFx s then [] else [RequestAnimationFrame])"

text \<open>
  The events between the press and the release of a stroke: moves and frames, and the
  timers and tasks of the host that complete meanwhile.
\<close>

fun is_stroke_event :: "event \<Rightarrow> bool" where
  "is_stroke_event (Move x y ty) = True"
| "is_stroke_event Frame = True"
| "is_stroke_event (TimerFired t) = True"
| "is_stroke_event (TaskDone i b) = True"
| "is_stroke_event ev = False"

text \<open>The points of the move events, in order.\<close>

fun moved :: "event list \<Rightarrow> point list" where
  "moved [] = []"
| "moved (Move x y ty # evs) = \<lparr>px = x, py = y\<rparr> # moved evs"
| "moved (ev # evs) = moved evs"

text \<open>A brush or eraser stroke is in progress.\<close>

definition stroking :: "sprite \<Rightarrow> bool" where
  "stroking s =
     (down (brush s) \<and> isPaintMode s \<and> (toolType s = Some BRUSH \<or> toolType s = Some ERASER))"

text \<open>The example sprite after the brush tool has been chosen.\<close>

definition brush_sprite :: sprite where
  "brush_sprite = handleActiveTool host0 (Some BRUSH) None None sprite0"

text \<open>
  The stroke of the specification's scenario up to its release: a press at (10, 10),
  moves to (12, 10) and (14, 11), a frame after each move. The sprite after these events
  is in the middle of a stroke of three points, with the snapshot cycle of the stroke
  pending.
\<close>

definition stroke_events :: "event list" where
  "stroke_events =
     [Press 10 10 ''mousedown'', Move 12 10 ''mousemove'', Frame, Move 14 11 ''mousemove'',
      Frame]"

definition stroke_sprite :: sprite where
  "stroke_sprite = run host0 stroke_events brush_sprite"

text \<open>
  The whole scenario: the brush is chosen, the stroke is made and released, and the three
  tasks then pending complete.
\<close>

definition demo_events :: "event list" where
  "demo_events =
     ActiveTool (Some BRUSH) None None # stroke_events @
     [Release 14 11, TaskDone 0 1, TaskDone 0 2, TaskDone 0 3]"

text \<open>The example host with the \<^verbatim>\<open>lowMemory\<close> preference set.\<close>

definition lowmem_host :: host where
  "lowmem_host = host0\<lparr>lowMemory := True\<rparr>"



text \<open>
  The sprite of the stroke after its release on the host with \<^verbatim>\<open>lowMemory\<close> set: the
  brush is up and the cycle is pending.
\<close>

definition pending_sprite :: sprite where
  "pending_sprite = state_after (handleRelease lowmem_host 14 11 stroke_sprite)"



section \<open>What the methods do to the state\<close>

lemma requested_append: "requested (xs @ ys) = requested xs @ requested ys"
  by (induction xs rule: requested.induct) simp_all

lemma renders_append: "renders (xs @ ys) = renders xs @ renders ys"
  by (induction xs rule: renders.induct) simp_all

lemma starts_append: "starts (xs @ ys) = starts xs + starts ys"
  by (induction xs rule: starts.induct) simp_all

lemma commitCalls_append: "commitCalls (xs @ ys) = commitCalls xs + commitCalls ys"
  by (induction xs rule: commitCalls.induct) simp_all

lemma commitTasks_append: "commitTasks (xs @ ys) = commitTasks xs + commitTasks ys"
  by (induction xs rule: commitTasks.induct) simp_all

lemma paintEntries_append: "paintEntries (xs @ ys) = paintEntries xs + paintEntries ys"
  by (induction xs rule: paintEntries.induct) simp_all

lemma timerCalls_append: "timerCalls (xs @ ys) = timerCalls xs @ timerCalls ys"
  by (induction xs rule: timerCalls.induct) simp_all

lemmas obs_append = requested_append renders_append starts_append commitCalls_append
  commitTasks_append paintEntries_append timerCalls_append

lemma rotatePointerLists_length: "length (rotatePointerLists H ps L w h) = length ps"
  by (induction ps) simp_all

lemma rotatePointerLists_nth:
  "i < length ps \<Longrightarrow> rotatePointerLists H ps L w h ! i = rotatePointer H L w h (ps ! i)"
  by (induction ps arbitrary: i) (simp_all add: nth_Cons')

lemma cacheEffects_nf:
  "cacheEffects s =
     s\<lparr>rafFx := True, tasks := tasks s @ (if rafFx s then [] else [RenderEffects]),
       calls := calls s @ (if rafFx s then [] else [RequestAnimationFrame])\<rparr>"
  by (simp add: cacheEffects_def)

lemma resetFilterAndRecache_nf:
  "resetFilterAndRecache s =
     s\<lparr>rafFx := True, tasks := tasks s @ (if rafFx s then [] else [RenderEffects]),
       calls := calls s @ ClearCacheProperty ''filterData'' #
                  (if rafFx s then [] else [RequestAnimationFrame])\<rparr>"
  by (simp add: resetFilterAndRecache_def cacheEffects_nf emit_def)

lemma paint_finish_nf:
  "paint_finish s =
     s\<lparr>rafFx := (rafFx s \<or> \<not> down (brush s)),
       tasks := tasks s @ (if \<not> down (brush s) \<and> \<not> rafFx s then [RenderEffects] else []),
       calls := calls s @ (if down (brush s) then []
                  else ClearCacheProperty ''filterData'' #
                    (if rafFx s then [] else [RequestAnimationFrame]))\<rparr>"
  by (simp add: paint_finish_def resetFilterAndRecache_nf)

lemma paint_begin_obs:
  "requested (paint_begin H tgt s) = [] \<and> renders (paint_begin H tgt s) = [] \<and>
   starts (paint_begin H tgt s) = 0 \<and> commitCalls (paint_begin H tgt s) = 0 \<and>
   timerCalls (paint_begin H tgt s) = []"
  by (simp add: paint_begin_def obs_append split: option.splits)

lemma paint_draw_released:
  assumes "\<not> down (brush s)" "toolType s = Some BRUSH \<or> toolType s = Some ERASER"
  shows "paint_draw H tgt w h s =
     Inr (s\<lparr>brush := (brush s)\<lparr>pointers := rotatePointerLists H (pointers (brush s)) (layer s) w h\<rparr>,
           rafFx := True,
           tasks := tasks s @ (if rafFx s then [] else [RenderEffects]),
           calls := calls s @ paint_begin H tgt s @
             [RenderBrushStroke tgt
                ((brush s)\<lparr>pointers := rotatePointerLists H (pointers (brush s)) (layer s) w h\<rparr>) None,
              Restore tgt, ClearCacheProperty ''filterData''] @
             (if rafFx s then [] else [RequestAnimationFrame])\<rparr>)"
  using assms
  by (auto simp add: paint_draw_def paint_brush_def paint_finish_nf emit_def Let_def)

lemma paint_draw_same_cycle: "same_cycle s (state_after (paint_draw H tgt w h s))"
  by (simp add: paint_draw_def paint_brush_def paint_finish_nf emit_def Let_def
      same_cycle_def state_after_def obs_append paint_begin_obs split: option.splits)

lemma preparePendingPaintState_nf:
  "preparePendingPaintState s =
     s\<lparr>pendingPaintState := Some (nextTimer s),
       timers := timers s @ [(nextTimer s, 5000)],
       nextTimer := Suc (nextTimer s),
       tasks := tasks s @ [EncodeOriginal],
       calls := calls s @ [CanvasToBlob EncodeOriginal, SetTimeout (nextTimer s) 5000]\<rparr>"
  by (simp add: preparePendingPaintState_def debouncePaintStore_def setTimeout_def
      canvasToBlob_def)

lemma paint_draw_calls:
  "\<exists>cs. calls (state_after (paint_draw H tgt w h s)) = calls s @ cs \<and> requested cs = []"
  by (simp add: paint_draw_def paint_brush_def paint_finish_nf emit_def Let_def
      state_after_def obs_append paint_begin_obs split: option.splits)

lemma prepare_draw:
  "drawSurface (preparePendingPaintState s) = drawSurface s"
  "drawTarget (preparePendingPaintState s) = drawTarget s"
  by (simp_all add: preparePendingPaintState_nf drawSurface_def drawTarget_def isMaskable_def)

lemma paint_live:
  assumes "drawSurface s = Some (Canvas w h True)"
  shows "paint H s = paint_draw H (drawTarget s) w h (emit [GetContext (drawTarget s)]
           (if pendingPaintState s = None then preparePendingPaintState s else s))"
  using assms by (simp add: paint_def Let_def prepare_draw)

lemma paint_dead:
  assumes "drawSurface s = Some (Canvas w h False)"
  shows "paint H s = Inl (TypeError, emit [GetContext (drawTarget s)]
           (if pendingPaintState s = None then preparePendingPaintState s else s))"
  using assms by (simp add: paint_def Let_def prepare_draw)

lemma paint_none:
  assumes "drawSurface s = None \<or> drawSurface s = Some ImageElement"
  shows "paint H s = Inl (TypeError,
           (if pendingPaintState s = None then preparePendingPaintState s else s))"
  using assms by (auto simp add: paint_def Let_def prepare_draw)

lemma paint_requested:
  "requested (new_calls s (state_after (paint H s))) =
     (case drawSurface s of
        Some (Canvas w h live) \<Rightarrow> [drawTarget s]
      | _ \<Rightarrow> [])"
proof -
  define s1 where "s1 = (if pendingPaintState s = None then preparePendingPaintState s else s)"
  have "\<exists>pre. calls s1 = calls s @ pre \<and> requested pre = []"
    by (simp add: s1_def preparePendingPaintState_nf)
  then obtain pre where pre: "calls s1 = calls s @ pre" "requested pre = []"
    by blast
  show ?thesis
  proof (cases "drawSurface s")
    case None
    then show ?thesis
      using pre paint_none [of s H] by (simp add: state_after_def new_calls_def s1_def)
  next
    case (Some sf)
    show ?thesis
    proof (cases sf)
      case ImageElement
      then show ?thesis
        using Some pre paint_none [of s H] by (simp add: state_after_def new_calls_def s1_def)
    next
      case (Canvas w h live)
      show ?thesis
      proof (cases live)
        case True
        obtain cs where cs:
          "calls (state_after (paint_draw H (drawTarget s) w h (emit [GetContext (drawTarget s)] s1)))
             = calls (emit [GetContext (drawTarget s)] s1) @ cs" "requested cs = []"
          using paint_draw_calls by blast
        have "paint H s = paint_draw H (drawTarget s) w h (emit [GetContext (drawTarget s)] s1)"
          using paint_live [of s w h H] Some Canvas True by (simp add: s1_def)
        then show ?thesis
          using Some Canvas pre cs by (simp add: new_calls_def emit_def obs_append)
      next
        case False
        have "paint H s = Inl (TypeError, emit [GetContext (drawTarget s)] s1)"
          using paint_dead [of s w h H] Some Canvas False by (simp add: s1_def)
        then show ?thesis
          using Some Canvas pre by (simp add: new_calls_def emit_def obs_append state_after_def)
      qed
    qed
  qed
qed

lemma storePaintState_commit:
  assumes "pendingPaintState s = Some t" "\<not> down (brush s)"
  shows "storePaintState s =
     (ReturnedPromise,
      s\<lparr>pendingPaintState := None, orgSourceToStore := None,
        timers := filter (\<lambda>e. fst e \<noteq> t) (timers s),
        tasks := tasks s @ [EncodeResult (orgSourceToStore s)],
        calls := calls s @ [ClearTimeout t, CanvasToBlob (EncodeResult (orgSourceToStore s))]\<rparr>)"
  using assms by (simp add: storePaintState_def clearTimeout_def canvasToBlob_def Let_def)

lemma storePaintState_rearm:
  assumes "pendingPaintState s = Some t" "down (brush s)"
  shows "storePaintState s =
     (ReturnedBool False,
      s\<lparr>pendingPaintState := Some (nextTimer s),
        timers := filter (\<lambda>e. fst e \<noteq> t) (timers s) @ [(nextTimer s, 1000)],
        nextTimer := Suc (nextTimer s),
        calls := calls s @ [ClearTimeout t, SetTimeout (nextTimer s) 1000]\<rparr>)"
  using assms
  by (simp add: storePaintState_def clearTimeout_def debouncePaintStore_def setTimeout_def
      Let_def)

lemma handleRelease_down:
  assumes "down (brush s)"
  shows "handleRelease H x y s =
     (case paint H ((emit [DisposeTempCanvas] s)\<lparr>tempCanvas := False,
                      brush := (brush s)\<lparr>down := False, last_cursor := 0\<rparr>\<rparr>) of
        Inl err \<Rightarrow> Inl err
      | Inr s3 \<Rightarrow>
          (let s4 = s3\<lparr>brush := (brush s3)\<lparr>pointers := []\<rparr>\<rparr>;
               s5 = (if \<not> lowMemory H then snd (storePaintState s4) else s4)
           in Inr (if isPaintMode s5 then forceMoveListener s5 else s5)))"
  using assms by (simp add: handleRelease_def emit_def Let_def)

lemma paint_begin_cong:
  assumes "toolType s' = toolType s" "selection s' = selection s" "layer s' = layer s"
    "bounds s' = bounds s"
  shows "paint_begin H tgt s' = paint_begin H tgt s"
  by (simp only: paint_begin_def selectionClip_def isRotated_def assms)

lemma rotatePointerLists_map:
  "rotatePointerLists H ps L w h = map (rotatePointer H L w h) ps"
  by (induction ps) simp_all

lemma stroke_obs:
  "renders (before_stroke H s) = []" "renders (after_stroke s) = []"
  "commitCalls (before_stroke H s) = 0" "commitCalls (after_stroke s) = 0"
  by (simp_all add: before_stroke_def after_stroke_def obs_append paint_begin_obs)

lemma paint_released:
  assumes "\<not> down (brush s)" "toolType s = Some BRUSH \<or> toolType s = Some ERASER"
    and "drawSurface s = Some (Canvas w h True)"
  shows "\<exists>s'. paint H s = Inr s' \<and>
     brush s' = (brush s)\<lparr>pointers := rotatePointerLists H (pointers (brush s)) (layer s) w h\<rparr> \<and>
     calls s' = calls s @ before_stroke H s @
       [RenderBrushStroke (drawTarget s)
          ((brush s)\<lparr>pointers := rotatePointerLists H (pointers (brush s)) (layer s) w h\<rparr>)
          None] @ after_stroke s \<and>
     pendingPaintState s' =
       (if pendingPaintState s = None then Some (nextTimer s) else pendingPaintState s) \<and>
     timers s' = timers s @ (if pendingPaintState s = None then [(nextTimer s, 5000)] else []) \<and>
     nextTimer s' = (if pendingPaintState s = None then Suc (nextTimer s) else nextTimer s) \<and>
     tasks s' = tasks s @ (if pendingPaintState s = None then [EncodeOriginal] else []) @
                  (if rafFx s then [] else [RenderEffects]) \<and>
     layer s' = layer s \<and> enqueued s' = enqueued s \<and> isPaintMode s' = isPaintMode s \<and>
     orgSourceToStore s' = orgSourceToStore s \<and> tempCanvas s' = tempCanvas s"
proof -
  define p where "p = emit [GetContext (drawTarget s)]
           (if pendingPaintState s = None then preparePendingPaintState s else s)"
  have p: "\<not> down (brush p)" "toolType p = toolType s" "brush p = brush s" "layer p = layer s"
    "selection p = selection s" "bounds p = bounds s" "rafFx p = rafFx s"
    "enqueued p = enqueued s" "isPaintMode p = isPaintMode s"
    "orgSourceToStore p = orgSourceToStore s" "tempCanvas p = tempCanvas s"
    "pendingPaintState p =
       (if pendingPaintState s = None then Some (nextTimer s) else pendingPaintState s)"
    "timers p = timers s @ (if pendingPaintState s = None then [(nextTimer s, 5000)] else [])"
    "nextTimer p = (if pendingPaintState s = None then Suc (nextTimer s) else nextTimer s)"
    "tasks p = tasks s @ (if pendingPaintState s = None then [EncodeOriginal] else [])"
    "calls p = calls s @ (if pendingPaintState s = None
        then [CanvasToBlob EncodeOriginal, SetTimeout (nextTimer s) 5000] else []) @
        [GetContext (drawTarget s)]"
    using assms(1) by (simp_all add: p_def emit_def preparePendingPaintState_nf)
  have pb: "paint_begin H (drawTarget s) p = paint_begin H (drawTarget s) s"
    by (rule paint_begin_cong) (simp_all add: p)
  have "paint H s = paint_draw H (drawTarget s) w h p"
    using paint_live [OF assms(3), of H] by (simp add: p_def)
  also have "\<dots> = Inr (p\<lparr>brush := (brush p)\<lparr>pointers := rotatePointerLists H (pointers (brush p)) (layer p) w h\<rparr>,
           rafFx := True,
           tasks := tasks p @ (if rafFx p then [] else [RenderEffects]),
           calls := calls p @ paint_begin H (drawTarget s) p @
             [RenderBrushStroke (drawTarget s)
                ((brush p)\<lparr>pointers := rotatePointerLists H (pointers (brush p)) (layer p) w h\<rparr>) None,
              Restore (drawTarget s), ClearCacheProperty ''filterData''] @
             (if rafFx p then [] else [RequestAnimationFrame])\<rparr>)"
    by (rule paint_draw_released) (simp_all add: p assms(1,2))
  finally show ?thesis
    by (simp add: p pb before_stroke_def after_stroke_def)
qed

lemma forceMoveListener_frame:
  "calls (forceMoveListener s) = calls s" "brush (forceMoveListener s) = brush s"
  "tempCanvas (forceMoveListener s) = tempCanvas s" "layer (forceMoveListener s) = layer s"
  "enqueued (forceMoveListener s) = enqueued s"
  "pendingPaintState (forceMoveListener s) = pendingPaintState s"
  "timers (forceMoveListener s) = timers s" "tasks (forceMoveListener s) = tasks s"
  "nextTimer (forceMoveListener s) = nextTimer s"
  by (simp_all add: forceMoveListener_def)

lemma handleRelease_live:
  assumes "down (brush s)" "toolType s = Some BRUSH \<or> toolType s = Some ERASER"
    and "drawSurface s = Some (Canvas w h True)"
  shows "\<exists>s'. handleRelease H x y s = Inr s' \<and>
     calls s' = calls s @ DisposeTempCanvas # before_stroke H s @
       [RenderBrushStroke (drawTarget s)
          ((brush s)\<lparr>down := False, last_cursor := 0,
             pointers := rotatePointerLists H (pointers (brush s)) (layer s) w h\<rparr>) None] @
       after_stroke s @
       (if lowMemory H then []
        else [ClearTimeout (case pendingPaintState s of None \<Rightarrow> nextTimer s | Some t \<Rightarrow> t),
              CanvasToBlob (EncodeResult (orgSourceToStore s))]) \<and>
     pointers (brush s') = [] \<and> \<not> down (brush s') \<and> last_cursor (brush s') = 0 \<and>
     \<not> tempCanvas s' \<and> layer s' = layer s \<and> enqueued s' = enqueued s \<and>
     pendingPaintState s' =
       (if lowMemory H
        then Some (case pendingPaintState s of None \<Rightarrow> nextTimer s | Some t \<Rightarrow> t)
        else None) \<and>
     timers s' =
       (if lowMemory H
        then timers s @ (if pendingPaintState s = None then [(nextTimer s, 5000)] else [])
        else filter (\<lambda>e. fst e \<noteq>
                 (case pendingPaintState s of None \<Rightarrow> nextTimer s | Some t \<Rightarrow> t))
               (timers s @ (if pendingPaintState s = None then [(nextTimer s, 5000)] else []))) \<and>
     tasks s' = tasks s @ (if pendingPaintState s = None then [EncodeOriginal] else []) @
                  (if rafFx s then [] else [RenderEffects]) @
                  (if lowMemory H then [] else [EncodeResult (orgSourceToStore s)])"
proof -
  define L where "L = (emit [DisposeTempCanvas] s)\<lparr>tempCanvas := False,
                      brush := (brush s)\<lparr>down := False, last_cursor := 0\<rparr>\<rparr>"
  define t where "t = (case pendingPaintState s of None \<Rightarrow> nextTimer s | Some t \<Rightarrow> t)"
  have L: "\<not> down (brush L)" "toolType L = toolType s" "drawSurface L = drawSurface s"
    "drawTarget L = drawTarget s" "layer L = layer s" "calls L = calls s @ [DisposeTempCanvas]"
    "pendingPaintState L = pendingPaintState s" "nextTimer L = nextTimer s"
    "timers L = timers s" "tasks L = tasks s" "enqueued L = enqueued s"
    "brush L = (brush s)\<lparr>down := False, last_cursor := 0\<rparr>" "\<not> tempCanvas L"
    "orgSourceToStore L = orgSourceToStore s" "isPaintMode L = isPaintMode s"
    "rafFx L = rafFx s" "selection L = selection s" "bounds L = bounds s"
    by (simp_all add: L_def emit_def drawSurface_def drawTarget_def isMaskable_def)
  have bs: "before_stroke H L = before_stroke H s"
    using paint_begin_cong [of L s H "drawTarget s"]
    by (simp add: before_stroke_def L)
  have as: "after_stroke L = after_stroke s"
    by (simp add: after_stroke_def L)
  have "\<not> down (brush L)" "toolType L = Some BRUSH \<or> toolType L = Some ERASER"
    "drawSurface L = Some (Canvas w h True)"
    using assms by (simp_all add: L)
  from paint_released [OF this, of H] obtain s3 where s3: "paint H L = Inr s3"
    and s3_brush: "brush s3 = (brush L)\<lparr>pointers := rotatePointerLists H (pointers (brush L)) (layer L) w h\<rparr>"
    and s3_calls: "calls s3 = calls L @ before_stroke H L @
       [RenderBrushStroke (drawTarget L)
          ((brush L)\<lparr>pointers := rotatePointerLists H (pointers (brush L)) (layer L) w h\<rparr>)
          None] @ after_stroke L"
    and s3_pend: "pendingPaintState s3 =
       (if pendingPaintState L = None then Some (nextTimer L) else pendingPaintState L)"
    and s3_timers: "timers s3 = timers L @ (if pendingPaintState L = None then [(nextTimer L, 5000)] else [])"
    and s3_tasks: "tasks s3 = tasks L @ (if pendingPaintState L = None then [EncodeOriginal] else []) @
                  (if rafFx L then [] else [RenderEffects])"
    and s3_rest: "layer s3 = layer L" "enqueued s3 = enqueued L" "isPaintMode s3 = isPaintMode L"
      "orgSourceToStore s3 = orgSourceToStore L" "tempCanvas s3 = tempCanvas L"
    by blast
  define s4 where "s4 = s3\<lparr>brush := (brush s3)\<lparr>pointers := []\<rparr>\<rparr>"
  have s4_pend: "pendingPaintState s4 = Some t"
    by (cases "pendingPaintState s") (simp_all add: s4_def s3_pend L t_def)
  have s4: "\<not> down (brush s4)" "pointers (brush s4) = []" "last_cursor (brush s4) = 0"
    "\<not> tempCanvas s4" "layer s4 = layer s" "enqueued s4 = enqueued s"
    "isPaintMode s4 = isPaintMode s" "orgSourceToStore s4 = orgSourceToStore s"
    "timers s4 = timers s @ (if pendingPaintState s = None then [(nextTimer s, 5000)] else [])"
    "tasks s4 = tasks s @ (if pendingPaintState s = None then [EncodeOriginal] else []) @
                  (if rafFx s then [] else [RenderEffects])"
    "calls s4 = calls s @ DisposeTempCanvas # before_stroke H s @
       [RenderBrushStroke (drawTarget s)
          ((brush s)\<lparr>down := False, last_cursor := 0,
             pointers := rotatePointerLists H (pointers (brush s)) (layer s) w h\<rparr>) None] @
       after_stroke s"
    by (simp_all add: s4_def s3_brush s3_calls s3_timers s3_tasks s3_rest L bs as)
  define s5 where "s5 = (if \<not> lowMemory H then snd (storePaintState s4) else s4)"
  have hr: "handleRelease H x y s = Inr (if isPaintMode s5 then forceMoveListener s5 else s5)"
    using handleRelease_down [OF assms(1), of H x y] s3
    by (simp add: L_def [symmetric] s4_def s5_def Let_def)
  have s5: "calls s5 = calls s4 @ (if lowMemory H then []
               else [ClearTimeout t, CanvasToBlob (EncodeResult (orgSourceToStore s))])"
    "brush s5 = brush s4" "tempCanvas s5 = tempCanvas s4" "layer s5 = layer s4"
    "enqueued s5 = enqueued s4"
    "pendingPaintState s5 = (if lowMemory H then Some t else None)"
    "timers s5 = (if lowMemory H then timers s4 else filter (\<lambda>e. fst e \<noteq> t) (timers s4))"
    "tasks s5 = tasks s4 @ (if lowMemory H then [] else [EncodeResult (orgSourceToStore s)])"
    using s4_pend s4(1,8)
    by (simp_all add: s5_def storePaintState_commit [OF s4_pend s4(1)])
  show ?thesis
    unfolding hr t_def [symmetric]
    apply (rule exI [of _ "if isPaintMode s5 then forceMoveListener s5 else s5"])
    apply (simp add: forceMoveListener_frame s5 s4)
    done
qed

lemma paint_draw_down:
  assumes "down (brush s)" "toolType s = Some BRUSH \<or> toolType s = Some ERASER"
  shows "paint_draw H tgt w h s = Inr (state_after (paint_draw H tgt w h s))"
    "brush (state_after (paint_draw H tgt w h s)) = brush s"
    "layer (state_after (paint_draw H tgt w h s)) = layer s"
    "toolType (state_after (paint_draw H tgt w h s)) = toolType s"
    "isPaintMode (state_after (paint_draw H tgt w h s)) = isPaintMode s"
  using assms
  by (auto simp add: paint_draw_def paint_brush_def paint_finish_nf emit_def Let_def
      state_after_def split: option.splits)

lemma paint_down:
  assumes "down (brush s)" "toolType s = Some BRUSH \<or> toolType s = Some ERASER"
    and "drawSurface s = Some (Canvas w h True)"
  shows "paint H s = Inr (state_after (paint H s))"
    "brush (state_after (paint H s)) = brush s"
    "layer (state_after (paint H s)) = layer s"
    "toolType (state_after (paint H s)) = toolType s"
    "isPaintMode (state_after (paint H s)) = isPaintMode s"
proof -
  define p where "p = emit [GetContext (drawTarget s)]
           (if pendingPaintState s = None then preparePendingPaintState s else s)"
  have p: "down (brush p)" "toolType p = Some BRUSH \<or> toolType p = Some ERASER"
    "brush p = brush s" "layer p = layer s" "toolType p = toolType s"
    "isPaintMode p = isPaintMode s"
    using assms(1,2) by (simp_all add: p_def emit_def preparePendingPaintState_nf)
  have eq: "paint H s = paint_draw H (drawTarget s) w h p"
    using paint_live [OF assms(3), of H] by (simp add: p_def)
  show "paint H s = Inr (state_after (paint H s))"
    "brush (state_after (paint H s)) = brush s"
    "layer (state_after (paint H s)) = layer s"
    "toolType (state_after (paint H s)) = toolType s"
    "isPaintMode (state_after (paint H s)) = isPaintMode s"
    using paint_draw_down [OF p(1,2), of H "drawTarget s" w h] p(3-)
    by (simp_all add: eq)
qed

lemma storePaintState_frame:
  "brush (snd (storePaintState s)) = brush s" "layer (snd (storePaintState s)) = layer s"
  "toolType (snd (storePaintState s)) = toolType s"
  "isPaintMode (snd (storePaintState s)) = isPaintMode s"
  by (simp_all add: storePaintState_def clearTimeout_def debouncePaintStore_def
      setTimeout_def canvasToBlob_def Let_def split: option.splits)

lemma completeTask_frame:
  "brush (completeTask k b s) = brush s" "layer (completeTask k b s) = layer s"
  "toolType (completeTask k b s) = toolType s"
  "isPaintMode (completeTask k b s) = isPaintMode s"
  by (cases k; simp add: completeTask_def enqueueState_def emit_def)+

lemma step_stroke:
  assumes "stroking s" "drawSurface s = Some (Canvas w h True)" "is_stroke_event ev"
  shows "stroking (state_after (step H ev s))"
    "layer (state_after (step H ev s)) = layer s"
    "pointers (brush (state_after (step H ev s))) = pointers (brush s) @ moved [ev]"
    "colour_of (brush (state_after (step H ev s))) = colour_of (brush s)"
    "radius (brush (state_after (step H ev s))) = radius (brush s)"
    "options (brush (state_after (step H ev s))) = options (brush s)"
proof -
  have st: "down (brush s)" "isPaintMode s" "toolType s = Some BRUSH \<or> toolType s = Some ERASER"
    using assms(1) by (simp_all add: stroking_def)
  note pd = paint_down [OF st(1,3) assms(2), of H]
  have "stroking (state_after (step H ev s)) \<and>
    layer (state_after (step H ev s)) = layer s \<and>
    pointers (brush (state_after (step H ev s))) = pointers (brush s) @ moved [ev] \<and>
    colour_of (brush (state_after (step H ev s))) = colour_of (brush s) \<and>
    radius (brush (state_after (step H ev s))) = radius (brush s) \<and>
    options (brush (state_after (step H ev s))) = options (brush s)"
  proof (cases ev)
    case (Move x y ty)
    then show ?thesis
      using st
      by (simp add: step_def handleMove_def handleMove_brush_def storeBrushPointer_def
          state_after_def stroking_def Let_def)
  next
    case Frame
    define s1 where "s1 = state_after (paint H s)"
    have ps: "paint H s = Inr s1"
      using pd(1) by (simp add: s1_def)
    have s1: "brush s1 = brush s" "layer s1 = layer s" "toolType s1 = toolType s"
      "isPaintMode s1 = isPaintMode s"
      using pd(2-) by (simp_all add: s1_def)
    have "update H s = Inr (s1\<lparr>brush := (brush s1)\<lparr>last_cursor := length (pointers (brush s1))\<rparr>\<rparr>)"
      using st(1) by (simp add: update_def ps)
    then show ?thesis
      using Frame st s1
      by (simp add: step_def state_after_def stroking_def)
  next
    case (TimerFired t)
    then show ?thesis
      using st
      by (simp add: step_def state_after_def stroking_def storePaintState_frame)
  next
    case (TaskDone i b)
    then show ?thesis
      using st
      by (simp add: step_def state_after_def stroking_def completeTask_frame)
  qed (use assms(3) in simp_all)
  then show "stroking (state_after (step H ev s))"
    "layer (state_after (step H ev s)) = layer s"
    "pointers (brush (state_after (step H ev s))) = pointers (brush s) @ moved [ev]"
    "colour_of (brush (state_after (step H ev s))) = colour_of (brush s)"
    "radius (brush (state_after (step H ev s))) = radius (brush s)"
    "options (brush (state_after (step H ev s))) = options (brush s)"
    by simp_all
qed

lemma draw_cong:
  assumes "layer s' = layer s"
  shows "drawSurface s' = drawSurface s" "drawTarget s' = drawTarget s"
  by (simp_all add: drawSurface_def drawTarget_def isMaskable_def assms)

lemma moved_append: "moved (xs @ ys) = moved xs @ moved ys"
  by (induction xs rule: moved.induct) simp_all

lemma run_stroke:
  assumes "stroking s" "drawSurface s = Some (Canvas w h True)" "list_all is_stroke_event evs"
  shows "stroking (run H evs s) \<and> layer (run H evs s) = layer s \<and>
    pointers (brush (run H evs s)) = pointers (brush s) @ moved evs \<and>
    colour_of (brush (run H evs s)) = colour_of (brush s) \<and>
    radius (brush (run H evs s)) = radius (brush s) \<and>
    options (brush (run H evs s)) = options (brush s)"
  using assms
proof (induction evs arbitrary: s)
  case Nil
  then show ?case by simp
next
  case (Cons ev evs)
  let ?s1 = "state_after (step H ev s)"
  have ev: "is_stroke_event ev" and evs: "list_all is_stroke_event evs"
    using Cons.prems(3) by simp_all
  note one = step_stroke [OF Cons.prems(1,2) ev, of H]
  have surf: "drawSurface ?s1 = Some (Canvas w h True)"
    using draw_cong(1) [OF one(2)] Cons.prems(2) by simp
  have mv: "moved (ev # evs) = moved [ev] @ moved evs"
    using moved_append [of "[ev]" evs] by simp
  show ?case
    using Cons.IH [OF one(1) surf evs] one(2-) by (simp add: mv)
qed

lemma handlePress_brush:
  assumes "isPaintMode s" "\<not> isColorPicker s" "toolType s = Some BRUSH \<or> toolType s = Some ERASER"
  shows "stroking (state_after (handlePress H x y ty s))"
    "layer (state_after (handlePress H x y ty s)) = layer s"
    "pointers (brush (state_after (handlePress H x y ty s))) = pointers (brush s) @ [\<lparr>px = x, py = y\<rparr>]"
    "colour_of (brush (state_after (handlePress H x y ty s))) = colour_of (brush s)"
    "radius (brush (state_after (handlePress H x y ty s))) = radius (brush s)"
    "options (brush (state_after (handlePress H x y ty s))) = options (brush s)"
  using assms
  by (auto simp add: handlePress_def storeBrushPointer_def state_after_def stroking_def Let_def)

lemma same_cycle_refl: "same_cycle s s"
  by (simp add: same_cycle_def)

lemma same_cycle_trans: "same_cycle s s' \<Longrightarrow> same_cycle s' s'' \<Longrightarrow> same_cycle s s''"
  by (simp add: same_cycle_def)

lemma same_cycle_inv: "same_cycle s s' \<Longrightarrow> cycle_inv s \<Longrightarrow> cycle_inv s'"
  by (simp add: same_cycle_def cycle_inv_def)

lemma filter_only_timer:
  assumes "map fst ts = [t]"
  shows "filter (\<lambda>e. fst e \<noteq> t) ts = []"
  using assms by (cases ts) auto

lemma cycle_inv_prepare:
  assumes "cycle_inv s" "pendingPaintState s = None"
  shows "cycle_inv (preparePendingPaintState s)"
  using assms by (simp add: cycle_inv_def preparePendingPaintState_nf obs_append)

lemma storePaintState_cycle:
  assumes "cycle_inv s"
  shows "cycle_inv (snd (storePaintState s))"
proof (cases "pendingPaintState s")
  case None
  then show ?thesis
    using assms by (simp add: storePaintState_def)
next
  case (Some t)
  have ts: "map fst (timers s) = [t]"
    using assms Some by (simp add: cycle_inv_def)
  note gone = filter_only_timer [OF ts]
  show ?thesis
  proof (cases "down (brush s)")
    case True
    show ?thesis
      using assms Some
      by (simp add: storePaintState_rearm [OF Some True] gone cycle_inv_def obs_append)
  next
    case False
    show ?thesis
      using assms Some
      by (simp add: storePaintState_commit [OF Some False] gone cycle_inv_def obs_append)
  qed
qed

lemma paint_same_cycle:
  "same_cycle (if pendingPaintState s = None then preparePendingPaintState s else s)
     (state_after (paint H s))"
proof -
  define s1 where "s1 = (if pendingPaintState s = None then preparePendingPaintState s else s)"
  have get: "same_cycle s1 (emit [GetContext (drawTarget s)] s1)"
    by (simp add: same_cycle_def emit_def obs_append)
  have "same_cycle s1 (state_after (paint H s))"
  proof (cases "drawSurface s")
    case None
    then show ?thesis
      using paint_none [of s H] by (simp add: state_after_def s1_def same_cycle_refl)
  next
    case (Some sf)
    show ?thesis
    proof (cases sf)
      case ImageElement
      then show ?thesis
        using Some paint_none [of s H] by (simp add: state_after_def s1_def same_cycle_refl)
    next
      case (Canvas w h live)
      show ?thesis
      proof (cases live)
        case True
        have "paint H s = paint_draw H (drawTarget s) w h (emit [GetContext (drawTarget s)] s1)"
          using paint_live [of s w h H] Some Canvas True by (simp add: s1_def)
        then show ?thesis
          using same_cycle_trans [OF get paint_draw_same_cycle] by simp
      next
        case False
        have "paint H s = Inl (TypeError, emit [GetContext (drawTarget s)] s1)"
          using paint_dead [of s w h H] Some Canvas False by (simp add: s1_def)
        then show ?thesis
          using get by (simp add: state_after_def)
      qed
    qed
  qed
  then show ?thesis
    by (simp add: s1_def)
qed

lemma paint_cycle:
  assumes "cycle_inv s"
  shows "cycle_inv (state_after (paint H s))"
proof -
  have "cycle_inv (if pendingPaintState s = None then preparePendingPaintState s else s)"
    using assms cycle_inv_prepare by simp
  then show ?thesis
    using same_cycle_inv [OF paint_same_cycle] by blast
qed

lemma handleRelease_cycle:
  assumes "cycle_inv s"
  shows "cycle_inv (state_after (handleRelease H x y s))"
proof (cases "down (brush s)")
  case False
  have "same_cycle s (forceMoveListener s)"
    by (simp add: same_cycle_def forceMoveListener_def)
  then show ?thesis
    using False assms same_cycle_inv by (simp add: handleRelease_def state_after_def)
next
  case True
  define L where "L = (emit [DisposeTempCanvas] s)\<lparr>tempCanvas := False,
                      brush := (brush s)\<lparr>down := False, last_cursor := 0\<rparr>\<rparr>"
  have "same_cycle s L"
    by (simp add: same_cycle_def L_def emit_def obs_append)
  then have invL: "cycle_inv L"
    using assms same_cycle_inv by blast
  note hr = handleRelease_down [OF True, of H x y, folded L_def]
  show ?thesis
  proof (cases "paint H L")
    case (Inl err)
    then have "state_after (handleRelease H x y s) = state_after (paint H L)"
      by (simp add: hr state_after_def)
    then show ?thesis
      using paint_cycle [OF invL, of H] by simp
  next
    case (Inr s3)
    then have inv3: "cycle_inv s3"
      using paint_cycle [OF invL, of H] by (simp add: state_after_def)
    define s4 where "s4 = s3\<lparr>brush := (brush s3)\<lparr>pointers := []\<rparr>\<rparr>"
    define s5 where "s5 = (if \<not> lowMemory H then snd (storePaintState s4) else s4)"
    have "same_cycle s3 s4"
      by (simp add: same_cycle_def s4_def)
    then have inv4: "cycle_inv s4"
      using inv3 same_cycle_inv by blast
    have inv5: "cycle_inv s5"
      using inv4 storePaintState_cycle [OF inv4] by (simp add: s5_def)
    have "same_cycle s5 (forceMoveListener s5)"
      by (simp add: same_cycle_def forceMoveListener_def)
    then have "cycle_inv (if isPaintMode s5 then forceMoveListener s5 else s5)"
      using inv5 same_cycle_inv by simp
    moreover have "state_after (handleRelease H x y s) =
        (if isPaintMode s5 then forceMoveListener s5 else s5)"
      using Inr by (simp add: hr state_after_def s4_def s5_def Let_def)
    ultimately show ?thesis by simp
  qed
qed

lemma update_cycle:
  assumes "cycle_inv s"
  shows "cycle_inv (state_after (update H s))"
proof (cases "down (brush s)")
  case False
  then show ?thesis
    using assms by (simp add: update_def state_after_def)
next
  case True
  show ?thesis
  proof (cases "paint H s")
    case (Inl err)
    then have "state_after (update H s) = state_after (paint H s)"
      using True by (simp add: update_def state_after_def)
    then show ?thesis
      using paint_cycle [OF assms, of H] by simp
  next
    case (Inr s1)
    then have inv1: "cycle_inv s1"
      using paint_cycle [OF assms, of H] by (simp add: state_after_def)
    have "same_cycle s1 (s1\<lparr>brush := (brush s1)\<lparr>last_cursor := length (pointers (brush s1))\<rparr>\<rparr>)"
      by (simp add: same_cycle_def)
    then show ?thesis
      using Inr True inv1 same_cycle_inv by (simp add: update_def state_after_def)
  qed
qed

lemma handlePress_cycle:
  assumes "cycle_inv s"
  shows "cycle_inv (state_after (handlePress H x y ty s))"
proof -
  define s1 where "s1 = (if isTouch ty then s\<lparr>pointerX := x, pointerY := y\<rparr> else s)"
  have "same_cycle s s1"
    by (simp add: same_cycle_def s1_def)
  then have inv1: "cycle_inv s1"
    using assms same_cycle_inv by blast
  show ?thesis
  proof (cases "\<not> isColorPicker s1 \<and> isPaintMode s1 \<and> toolType s1 = Some FILL")
    case True
    then have "handlePress H x y ty s = paint H s1"
      by (simp add: handlePress_def s1_def Let_def)
    then show ?thesis
      using paint_cycle [OF inv1, of H] by simp
  next
    case False
    then have "same_cycle s1 (state_after (handlePress H x y ty s))"
      by (auto simp add: handlePress_def s1_def [symmetric] Let_def state_after_def
          same_cycle_def storeBrushPointer_def emit_def obs_append split: option.splits)
    then show ?thesis
      using inv1 same_cycle_inv by blast
  qed
qed

lemma handleMove_cycle:
  assumes "cycle_inv s"
  shows "cycle_inv (state_after (handleMove x y ty s))"
proof -
  have "same_cycle s (state_after (handleMove x y ty s))"
    by (simp add: handleMove_def handleMove_brush_def Let_def state_after_def
        same_cycle_def storeBrushPointer_def resetFilterAndRecache_nf emit_def obs_append
        split: option.splits)
  then show ?thesis
    using assms same_cycle_inv by blast
qed

lemma commitTasks_remove:
  assumes "i < length ks"
  shows "commitTasks ks =
     commitTasks (take i ks @ drop (Suc i) ks) + commitTasks [ks ! i]"
proof -
  have "ks = take i ks @ [ks ! i] @ drop (Suc i) ks"
    using assms by (simp add: id_take_nth_drop)
  then have "commitTasks ks = commitTasks (take i ks @ [ks ! i] @ drop (Suc i) ks)"
    by simp
  then show ?thesis
    by (simp only: commitTasks_append)
qed

lemma completeTask_cycle:
  assumes "cycle_inv s" "i < length (tasks s)"
  shows "cycle_inv (completeTask (tasks s ! i) b
           (s\<lparr>tasks := take i (tasks s) @ drop (Suc i) (tasks s)\<rparr>))"
  using assms commitTasks_remove [OF assms(2)]
  by (cases "tasks s ! i")
    (simp_all add: completeTask_def enqueueState_def emit_def cycle_inv_def obs_append)

lemma handleActiveTool_cycle:
  assumes "cycle_inv s"
  shows "cycle_inv (handleActiveTool H tk topts sel s)"
proof -
  define s1 where "s1 = s\<lparr>isDragging := False, isPaintMode := False, isDragMode := False,
                 isColorPicker := False, selection := None, toolType := None,
                 toolOptions := None, cloneStartCoords := None\<rparr>"
  define s2 where "s2 = snd (storePaintState s1)"
  have "same_cycle s s1"
    by (simp add: same_cycle_def s1_def)
  then have "cycle_inv s1"
    using assms same_cycle_inv by blast
  then have inv2: "cycle_inv s2"
    using storePaintState_cycle by (simp add: s2_def)
  have "same_cycle s2 (handleActiveTool H tk topts sel s)"
    unfolding handleActiveTool_def Let_def s1_def [symmetric] s2_def [symmetric]
    by (simp add: same_cycle_def invalidate_def emit_def setDraggable_def setSelection_def
        cacheBrush_def forceMoveListener_def obs_append Let_def)
  then show ?thesis
    using inv2 same_cycle_inv by blast
qed

lemma timer_fires_as_store:
  assumes "cycle_inv s" "t \<in> fst ` set (timers s)"
  shows "pendingPaintState s = Some t"
    "snd (storePaintState (s\<lparr>timers := filter (\<lambda>e. fst e \<noteq> t) (timers s)\<rparr>))
       = snd (storePaintState s)"
proof -
  have m: "map fst (timers s) = (case pendingPaintState s of None \<Rightarrow> [] | Some a \<Rightarrow> [a])"
    using assms(1) by (simp add: cycle_inv_def)
  have "t \<in> set (case pendingPaintState s of None \<Rightarrow> [] | Some a \<Rightarrow> [a])"
    using assms(2) by (simp add: m [symmetric])
  then show pend: "pendingPaintState s = Some t"
    by (cases "pendingPaintState s") simp_all
  show "snd (storePaintState (s\<lparr>timers := filter (\<lambda>e. fst e \<noteq> t) (timers s)\<rparr>))
       = snd (storePaintState s)"
    using pend
    by (simp add: storePaintState_def clearTimeout_def debouncePaintStore_def setTimeout_def
        canvasToBlob_def Let_def)
qed

lemma step_cycle:
  assumes "cycle_inv s"
  shows "cycle_inv (state_after (step H ev s))"
proof (cases ev)
  case (Press x y ty)
  then show ?thesis
    using handlePress_cycle [OF assms] by (simp add: step_def)
next
  case (Move x y ty)
  then show ?thesis
    using handleMove_cycle [OF assms] by (simp add: step_def)
next
  case (Release x y)
  then show ?thesis
    using handleRelease_cycle [OF assms] by (simp add: step_def)
next
  case Frame
  then show ?thesis
    using update_cycle [OF assms] by (simp add: step_def)
next
  case (TimerFired t)
  show ?thesis
  proof (cases "t \<in> fst ` set (timers s)")
    case True
    then show ?thesis
      using TimerFired timer_fires_as_store(2) [OF assms True] storePaintState_cycle [OF assms]
      by (simp add: step_def state_after_def)
  next
    case False
    then show ?thesis
      using TimerFired assms by (simp add: step_def state_after_def)
  qed
next
  case (TaskDone i b)
  then show ?thesis
    using assms completeTask_cycle [OF assms, of i b]
    by (simp add: step_def state_after_def)
next
  case (ActiveTool tk topts sel)
  then show ?thesis
    using handleActiveTool_cycle [OF assms] by (simp add: step_def state_after_def)
qed

lemma run_cycle:
  assumes "cycle_inv s"
  shows "cycle_inv (run H evs s)"
  using assms by (induction evs arbitrary: s) (simp_all add: step_cycle)

lemma cycle_inv_bounds:
  assumes "cycle_inv s"
  shows "length (timers s) \<le> 1" "paintEntries (enqueued s) \<le> starts (calls s)"
    "(if pendingPaintState s = None \<and> commitTasks (tasks s) = 0
      then paintEntries (enqueued s) = starts (calls s)
      else paintEntries (enqueued s) < starts (calls s))"
proof -
  have "length (map fst (timers s)) \<le> 1"
    using assms by (simp add: cycle_inv_def split: option.splits)
  then show "length (timers s) \<le> 1" by simp
  show "paintEntries (enqueued s) \<le> starts (calls s)"
    using assms by (simp add: cycle_inv_def)
  show "(if pendingPaintState s = None \<and> commitTasks (tasks s) = 0
      then paintEntries (enqueued s) = starts (calls s)
      else paintEntries (enqueued s) < starts (calls s))"
    using assms by (auto simp add: cycle_inv_def)
qed

lemma paint_while_pending:
  assumes "pendingPaintState s \<noteq> None"
  shows "pendingPaintState (state_after (paint H s)) = pendingPaintState s"
    "timers (state_after (paint H s)) = timers s"
    "nextTimer (state_after (paint H s)) = nextTimer s"
    "timerCalls (calls (state_after (paint H s))) = timerCalls (calls s)"
    "starts (calls (state_after (paint H s))) = starts (calls s)"
  using paint_same_cycle [of s H] assms by (simp_all add: same_cycle_def)

lemma paint_while_idle:
  assumes "cycle_inv s" "pendingPaintState s = None"
  shows "pendingPaintState (state_after (paint H s)) = Some (nextTimer s)"
    "timers (state_after (paint H s)) = [(nextTimer s, 5000)]"
    "starts (calls (state_after (paint H s))) = Suc (starts (calls s))"
proof -
  have "timers s = []"
    using assms by (simp add: cycle_inv_def)
  then show "pendingPaintState (state_after (paint H s)) = Some (nextTimer s)"
    "timers (state_after (paint H s)) = [(nextTimer s, 5000)]"
    "starts (calls (state_after (paint H s))) = Suc (starts (calls s))"
    using paint_same_cycle [of s H] assms(2)
    by (simp_all add: same_cycle_def preparePendingPaintState_nf obs_append)
qed

lemma timer_fired:
  assumes "cycle_inv s" "pendingPaintState s = Some t"
  shows "state_after (step H (TimerFired t) s) = snd (storePaintState s)"
    "filter (\<lambda>e. fst e \<noteq> t) (timers s) = []"
proof -
  have ts: "map fst (timers s) = [t]"
    using assms by (simp add: cycle_inv_def)
  show "filter (\<lambda>e. fst e \<noteq> t) (timers s) = []"
    using filter_only_timer [OF ts] .
  have "set (map fst (timers s)) = {t}"
    by (simp only: ts) simp
  then have mem: "t \<in> fst ` set (timers s)"
    by simp
  show "state_after (step H (TimerFired t) s) = snd (storePaintState s)"
    using mem timer_fires_as_store(2) [OF assms(1) mem]
    by (simp add: step_def state_after_def)
qed

lemma timer_fired_down:
  assumes "cycle_inv s" "pendingPaintState s = Some t" "down (brush s)"
  shows "pendingPaintState (state_after (step H (TimerFired t) s)) = Some (nextTimer s)"
    "timers (state_after (step H (TimerFired t) s)) = [(nextTimer s, 1000)]"
    "enqueued (state_after (step H (TimerFired t) s)) = enqueued s"
    "tasks (state_after (step H (TimerFired t) s)) = tasks s"
  by (simp_all add: timer_fired [OF assms(1,2)] storePaintState_rearm [OF assms(2,3)])

lemma timer_fired_up:
  assumes "cycle_inv s" "pendingPaintState s = Some t" "\<not> down (brush s)"
  shows "pendingPaintState (state_after (step H (TimerFired t) s)) = None"
    "timers (state_after (step H (TimerFired t) s)) = []"
    "enqueued (state_after (step H (TimerFired t) s)) = enqueued s"
    "tasks (state_after (step H (TimerFired t) s)) = tasks s @ [EncodeResult (orgSourceToStore s)]"
    "layer (state_after (step H (TimerFired t) s)) = layer s"
  by (simp_all add: timer_fired [OF assms(1,2)] storePaintState_commit [OF assms(2,3)])

lemma commit_completes:
  assumes "tasks s1 = ks @ [EncodeResult org]"
  shows "enqueued (state_after (step H (TaskDone (length ks) b) s1)) =
           enqueued s1 @ [(''spritePaint_'' @ l_id (layer s1), PaintState org (blobToResource b))]"
    "tasks (state_after (step H (TaskDone (length ks) b) s1)) = ks"
    "pendingPaintState (state_after (step H (TaskDone (length ks) b) s1)) = pendingPaintState s1"
  using assms
  by (simp_all add: step_def state_after_def completeTask_def enqueueState_def)

text \<open>The example states, evaluated.\<close>

lemmas model_defs = step_def handleActiveTool_def handlePress_def handleMove_def
  handleRelease_def update_def paint_def paint_draw_def paint_brush_def paint_begin_def
  paint_finish_def selectionClip_def storePaintState_def preparePendingPaintState_def
  debouncePaintStore_def setTimeout_def clearTimeout_def canvasToBlob_def enqueueState_def
  completeTask_def resetFilterAndRecache_def cacheEffects_def emit_def invalidate_def
  setDraggable_def setSelection_def cacheBrush_def forceMoveListener_def storeBrushPointer_def
  handleMove_brush_def isTouch_def drawSurface_def drawTarget_def isMaskable_def
  state_after_def rotatePointer_def

lemmas example_defs = host0_def lowmem_host_def sprite0_def layer0_def brush0_def
  default_toolOptions_def brush_sprite_def stroke_events_def stroke_sprite_def
  pending_sprite_def demo_events_def

lemma brush_sprite_facts:
  "isPaintMode brush_sprite" "\<not> isColorPicker brush_sprite"
  "toolType brush_sprite = Some BRUSH"
  "drawSurface brush_sprite = Some (Canvas 100 80 True)"
  "drawTarget brush_sprite = SourceCtx" "layer brush_sprite = layer0"
  "pointers (brush brush_sprite) = []"
  by (simp_all add: model_defs example_defs Let_def)

lemma stroke_sprite_facts:
  "down (brush stroke_sprite)" "toolType stroke_sprite = Some BRUSH"
  "drawSurface stroke_sprite = Some (Canvas 100 80 True)"
  "pendingPaintState stroke_sprite = Some 1" "timers stroke_sprite = [(1, 5000)]"
  "nextTimer stroke_sprite = 2" "enqueued stroke_sprite = []"
  "tasks stroke_sprite = [EncodeOriginal]" "orgSourceToStore stroke_sprite = None"
  "timerCalls (calls stroke_sprite) = [SetTimeout 1 5000]"
  "starts (calls stroke_sprite) = 1" "commitCalls (calls stroke_sprite) = 0"
  "pointers (brush stroke_sprite) =
     [\<lparr>px = 10, py = 10\<rparr>, \<lparr>px = 12, py = 10\<rparr>, \<lparr>px = 14, py = 11\<rparr>]"
  by (simp_all add: model_defs example_defs Let_def)

lemma pending_sprite_facts:
  "\<not> down (brush pending_sprite)" "pendingPaintState pending_sprite = Some 1"
  "timers pending_sprite = [(1, 5000)]" "enqueued pending_sprite = []"
  "tasks pending_sprite = [EncodeOriginal, RenderEffects]"
  "orgSourceToStore pending_sprite = None" "l_id (layer pending_sprite) = ''layer1''"
  "starts (calls pending_sprite) = 1" "commitCalls (calls pending_sprite) = 0"
  by (simp_all add: model_defs example_defs Let_def)

lemma example_cycle_inv:
  "cycle_inv sprite0" "cycle_inv stroke_sprite" "cycle_inv pending_sprite"
  using stroke_sprite_facts pending_sprite_facts
  by (simp_all add: cycle_inv_def sprite0_def)

















section \<open>The claims\<close>

text \<open>
  C1. A brush or eraser stroke on a layer whose surface yields a context: a press, then
  any moves and frames (and timers and tasks of the host completing meanwhile), then the
  release. At the release the brush holds every point recorded since the press, in
  order, after the points it held before. \<^verbatim>\<open>handleRelease\<close> renders one stroke, on
  the context of the layer (not the preview), with the brush holding the whole list
  (each point passed through the pointer transform), its cursor at 0 and no overrides;
  the sprite it returns has an empty pointer list, the brush up and no preview canvas.
\<close>

theorem stroke_rendered_whole_on_release:
  assumes "isPaintMode s" "\<not> isColorPicker s"
    and "toolType s = Some BRUSH \<or> toolType s = Some ERASER"
    and "drawSurface s = Some (Canvas w h True)"
    and "list_all is_stroke_event evs"
  shows "let s1 = run H (Press x0 y0 ty # evs) s
         in down (brush s1) \<and>
            pointers (brush s1) = pointers (brush s) @ \<lparr>px = x0, py = y0\<rparr> # moved evs \<and>
            (\<exists>s' b. handleRelease H x y s1 = Inr s' \<and>
               renders (new_calls s1 s') = [(drawTarget s, b, None)] \<and>
               pointers b = map (rotatePointer H (layer s) w h) (pointers (brush s1)) \<and>
               last_cursor b = 0 \<and> \<not> down b \<and>
               colour_of b = colour_of (brush s) \<and> radius b = radius (brush s) \<and>
               options b = options (brush s) \<and>
               pointers (brush s') = [] \<and> \<not> down (brush s') \<and> \<not> tempCanvas s')"
proof -
  define s0 where "s0 = state_after (handlePress H x0 y0 ty s)"
  define s1 where "s1 = run H (Press x0 y0 ty # evs) s"
  note press = handlePress_brush [OF assms(1-3), of H x0 y0 ty, folded s0_def]
  have s1_run: "s1 = run H evs s0"
    by (simp add: s1_def s0_def step_def)
  have surf0: "drawSurface s0 = Some (Canvas w h True)"
    using draw_cong(1) [OF press(2)] assms(4) by simp
  have acc: "stroking s1" "layer s1 = layer s"
    "pointers (brush s1) = pointers (brush s) @ \<lparr>px = x0, py = y0\<rparr> # moved evs"
    "colour_of (brush s1) = colour_of (brush s)" "radius (brush s1) = radius (brush s)"
    "options (brush s1) = options (brush s)"
    using run_stroke [OF press(1) surf0 assms(5), of H] press(2-)
    by (simp_all add: s1_run)
  have st: "down (brush s1)" "toolType s1 = Some BRUSH \<or> toolType s1 = Some ERASER"
    using acc(1) by (simp_all add: stroking_def)
  have surf1: "drawSurface s1 = Some (Canvas w h True)" and tgt1: "drawTarget s1 = drawTarget s"
    using draw_cong [OF acc(2)] assms(4) by simp_all
  from handleRelease_live [OF st surf1, of H x y] obtain s' where rel:
    "handleRelease H x y s1 = Inr s'"
    "calls s' = calls s1 @ DisposeTempCanvas # before_stroke H s1 @
       [RenderBrushStroke (drawTarget s1)
          ((brush s1)\<lparr>down := False, last_cursor := 0,
             pointers := rotatePointerLists H (pointers (brush s1)) (layer s1) w h\<rparr>) None] @
       after_stroke s1 @
       (if lowMemory H then []
        else [ClearTimeout (case pendingPaintState s1 of None \<Rightarrow> nextTimer s1 | Some t \<Rightarrow> t),
              CanvasToBlob (EncodeResult (orgSourceToStore s1))])"
    "pointers (brush s') = []" "\<not> down (brush s')" "\<not> tempCanvas s'"
    by blast
  have rn: "renders (new_calls s1 s') =
      [(drawTarget s, (brush s1)\<lparr>down := False, last_cursor := 0,
             pointers := rotatePointerLists H (pointers (brush s1)) (layer s1) w h\<rparr>, None)]"
    by (simp add: new_calls_def rel(2) obs_append stroke_obs tgt1)
  show ?thesis
    unfolding Let_def s1_def [symmetric]
    apply (intro conjI)
      apply (rule st(1))
     apply (rule acc(3))
    apply (rule exI [of _ s'])
    apply (rule exI [of _ "(brush s1)\<lparr>down := False, last_cursor := 0,
             pointers := rotatePointerLists H (pointers (brush s1)) (layer s1) w h\<rparr>"])
    apply (simp add: rel rn acc rotatePointerLists_map)
    done
qed

theorem stroke_rendered_whole_on_release_witness:
  "isPaintMode brush_sprite \<and> \<not> isColorPicker brush_sprite \<and>
   toolType brush_sprite = Some BRUSH \<and>
   drawSurface brush_sprite = Some (Canvas 100 80 True) \<and>
   list_all is_stroke_event
     [Move 12 10 ''mousemove'', Frame, Move 14 11 ''mousemove'', Frame, TimerFired 1] \<and>
   pointers (brush (run host0
       (Press 10 10 ''mousedown'' #
        [Move 12 10 ''mousemove'', Frame, Move 14 11 ''mousemove'', Frame, TimerFired 1])
       brush_sprite))
     = [\<lparr>px = 10, py = 10\<rparr>, \<lparr>px = 12, py = 10\<rparr>, \<lparr>px = 14, py = 11\<rparr>] \<and>
   (\<exists>s' b. handleRelease host0 14 11 (run host0
       (Press 10 10 ''mousedown'' #
        [Move 12 10 ''mousemove'', Frame, Move 14 11 ''mousemove'', Frame, TimerFired 1])
       brush_sprite) = Inr s' \<and>
     renders (new_calls (run host0
       (Press 10 10 ''mousedown'' #
        [Move 12 10 ''mousemove'', Frame, Move 14 11 ''mousemove'', Frame, TimerFired 1])
       brush_sprite) s') = [(SourceCtx, b, None)] \<and>
     pointers b = [\<lparr>px = 10, py = 10\<rparr>, \<lparr>px = 12, py = 10\<rparr>, \<lparr>px = 14, py = 11\<rparr>] \<and>
     last_cursor b = 0 \<and> pointers (brush s') = [])"
proof -
  note f = brush_sprite_facts
  have tool: "toolType brush_sprite = Some BRUSH \<or> toolType brush_sprite = Some ERASER"
    by (simp add: f)
  have evs: "list_all is_stroke_event
     [Move 12 10 ''mousemove'', Frame, Move 14 11 ''mousemove'', Frame, TimerFired 1]"
    by simp
  have rot: "rotatePointer host0 layer0 100 80 = (\<lambda>p. p)"
    by (rule ext) (simp add: rotatePointer_def host0_def layer0_def Let_def)
  from stroke_rendered_whole_on_release
    [OF f(1,2) tool f(4) evs, of host0 10 10 "''mousedown''" 14 11]
  have "pointers (brush (run host0
       (Press 10 10 ''mousedown'' #
        [Move 12 10 ''mousemove'', Frame, Move 14 11 ''mousemove'', Frame, TimerFired 1])
       brush_sprite))
     = [\<lparr>px = 10, py = 10\<rparr>, \<lparr>px = 12, py = 10\<rparr>, \<lparr>px = 14, py = 11\<rparr>] \<and>
   (\<exists>s' b. handleRelease host0 14 11 (run host0
       (Press 10 10 ''mousedown'' #
        [Move 12 10 ''mousemove'', Frame, Move 14 11 ''mousemove'', Frame, TimerFired 1])
       brush_sprite) = Inr s' \<and>
     renders (new_calls (run host0
       (Press 10 10 ''mousedown'' #
        [Move 12 10 ''mousemove'', Frame, Move 14 11 ''mousemove'', Frame, TimerFired 1])
       brush_sprite) s') = [(SourceCtx, b, None)] \<and>
     pointers b = [\<lparr>px = 10, py = 10\<rparr>, \<lparr>px = 12, py = 10\<rparr>, \<lparr>px = 14, py = 11\<rparr>] \<and>
     last_cursor b = 0 \<and> pointers (brush s') = [])"
    unfolding Let_def f rot by (elim conjE exE, intro conjI exI) simp_all
  then show ?thesis
    using f(1-4) evs by simp
qed

text \<open>
  C2, as the code has it. From a state whose bookkeeping is in order, after any sequence
  of events: at most one timer is outstanding, and the paint states in the history are
  as many as the cycles started when no cycle is pending and no result is being encoded,
  and fewer otherwise (never more than one per cycle). An edit (\<^verbatim>\<open>paint\<close>) starts a
  cycle only when none is pending; while one is pending it starts none and leaves the
  timer alone. The timer is armed again, for 1000 ms, when it fires while the brush is
  down; when it fires with the brush up the cycle ends, the result is encoded and its
  completion enqueues exactly one paint state.
\<close>

theorem snapshot_cycle_bookkeeping:
  assumes "cycle_inv s"
  shows "cycle_inv (run H evs s) \<and>
    length (timers (run H evs s)) \<le> 1 \<and>
    paintEntries (enqueued (run H evs s)) \<le> starts (calls (run H evs s)) \<and>
    (if pendingPaintState (run H evs s) = None \<and> commitTasks (tasks (run H evs s)) = 0
     then paintEntries (enqueued (run H evs s)) = starts (calls (run H evs s))
     else paintEntries (enqueued (run H evs s)) < starts (calls (run H evs s))) \<and>
    (if pendingPaintState s = None
     then pendingPaintState (state_after (paint H s)) = Some (nextTimer s) \<and>
          timers (state_after (paint H s)) = [(nextTimer s, 5000)] \<and>
          starts (calls (state_after (paint H s))) = Suc (starts (calls s))
     else pendingPaintState (state_after (paint H s)) = pendingPaintState s \<and>
          timers (state_after (paint H s)) = timers s \<and>
          nextTimer (state_after (paint H s)) = nextTimer s \<and>
          timerCalls (calls (state_after (paint H s))) = timerCalls (calls s) \<and>
          starts (calls (state_after (paint H s))) = starts (calls s)) \<and>
    (pendingPaintState s = Some t \<and> down (brush s) \<longrightarrow>
       (let s1 = state_after (step H (TimerFired t) s)
        in pendingPaintState s1 = Some (nextTimer s) \<and> timers s1 = [(nextTimer s, 1000)] \<and>
           enqueued s1 = enqueued s \<and> tasks s1 = tasks s)) \<and>
    (pendingPaintState s = Some t \<and> \<not> down (brush s) \<longrightarrow>
       (let s1 = state_after (step H (TimerFired t) s);
            s2 = state_after (step H (TaskDone (length (tasks s)) b) s1)
        in pendingPaintState s1 = None \<and> timers s1 = [] \<and> enqueued s1 = enqueued s \<and>
           tasks s1 = tasks s @ [EncodeResult (orgSourceToStore s)] \<and>
           enqueued s2 = enqueued s @ [(''spritePaint_'' @ l_id (layer s),
                            PaintState (orgSourceToStore s) (blobToResource b))] \<and>
           tasks s2 = tasks s \<and> pendingPaintState s2 = None))"
proof -
  note inv = run_cycle [OF assms, of H evs]
  have runs: "cycle_inv (run H evs s) \<and>
    length (timers (run H evs s)) \<le> 1 \<and>
    paintEntries (enqueued (run H evs s)) \<le> starts (calls (run H evs s)) \<and>
    (if pendingPaintState (run H evs s) = None \<and> commitTasks (tasks (run H evs s)) = 0
     then paintEntries (enqueued (run H evs s)) = starts (calls (run H evs s))
     else paintEntries (enqueued (run H evs s)) < starts (calls (run H evs s)))"
    using inv cycle_inv_bounds [OF inv] by blast
  have edit: "(if pendingPaintState s = None
     then pendingPaintState (state_after (paint H s)) = Some (nextTimer s) \<and>
          timers (state_after (paint H s)) = [(nextTimer s, 5000)] \<and>
          starts (calls (state_after (paint H s))) = Suc (starts (calls s))
     else pendingPaintState (state_after (paint H s)) = pendingPaintState s \<and>
          timers (state_after (paint H s)) = timers s \<and>
          nextTimer (state_after (paint H s)) = nextTimer s \<and>
          timerCalls (calls (state_after (paint H s))) = timerCalls (calls s) \<and>
          starts (calls (state_after (paint H s))) = starts (calls s))"
    using paint_while_idle [OF assms, of H] paint_while_pending [of s H]
    by (cases "pendingPaintState s = None") simp_all
  have rearm: "pendingPaintState s = Some t \<and> down (brush s) \<longrightarrow>
       (let s1 = state_after (step H (TimerFired t) s)
        in pendingPaintState s1 = Some (nextTimer s) \<and> timers s1 = [(nextTimer s, 1000)] \<and>
           enqueued s1 = enqueued s \<and> tasks s1 = tasks s)"
    using timer_fired_down [OF assms, of t H] by (simp add: Let_def)
  have commit: "pendingPaintState s = Some t \<and> \<not> down (brush s) \<longrightarrow>
       (let s1 = state_after (step H (TimerFired t) s);
            s2 = state_after (step H (TaskDone (length (tasks s)) b) s1)
        in pendingPaintState s1 = None \<and> timers s1 = [] \<and> enqueued s1 = enqueued s \<and>
           tasks s1 = tasks s @ [EncodeResult (orgSourceToStore s)] \<and>
           enqueued s2 = enqueued s @ [(''spritePaint_'' @ l_id (layer s),
                            PaintState (orgSourceToStore s) (blobToResource b))] \<and>
           tasks s2 = tasks s \<and> pendingPaintState s2 = None)"
  proof (intro impI, elim conjE)
    assume pend: "pendingPaintState s = Some t" and up: "\<not> down (brush s)"
    note f = timer_fired_up [OF assms pend up, of H]
    note c = commit_completes [OF f(4), of H b]
    show "let s1 = state_after (step H (TimerFired t) s);
            s2 = state_after (step H (TaskDone (length (tasks s)) b) s1)
        in pendingPaintState s1 = None \<and> timers s1 = [] \<and> enqueued s1 = enqueued s \<and>
           tasks s1 = tasks s @ [EncodeResult (orgSourceToStore s)] \<and>
           enqueued s2 = enqueued s @ [(''spritePaint_'' @ l_id (layer s),
                            PaintState (orgSourceToStore s) (blobToResource b))] \<and>
           tasks s2 = tasks s \<and> pendingPaintState s2 = None"
      unfolding Let_def by (simp add: f c)
  qed
  show ?thesis
    using runs edit rearm commit by blast
qed

theorem snapshot_cycle_bookkeeping_witness:
  "cycle_inv sprite0 \<and> cycle_inv (run host0 demo_events sprite0) \<and>
   starts (calls (run host0 demo_events sprite0)) = 1 \<and>
   enqueued (run host0 demo_events sprite0) =
     [(''spritePaint_layer1'', PaintState None (blobToResource 3))] \<and>
   cycle_inv stroke_sprite \<and> pendingPaintState stroke_sprite = Some 1 \<and>
   down (brush stroke_sprite) \<and>
   pendingPaintState (state_after (step host0 (TimerFired 1) stroke_sprite)) = Some 2 \<and>
   timers (state_after (step host0 (TimerFired 1) stroke_sprite)) = [(2, 1000)] \<and>
   enqueued (state_after (step host0 (TimerFired 1) stroke_sprite)) = [] \<and>
   cycle_inv pending_sprite \<and> pendingPaintState pending_sprite = Some 1 \<and>
   \<not> down (brush pending_sprite) \<and>
   enqueued (state_after (step host0 (TaskDone 2 7)
       (state_after (step host0 (TimerFired 1) pending_sprite))))
     = [(''spritePaint_layer1'', PaintState None (blobToResource 7))]"
proof -
  note inv = example_cycle_inv
  have run: "starts (calls (run host0 demo_events sprite0)) = 1"
    "enqueued (run host0 demo_events sprite0) =
       [(''spritePaint_layer1'', PaintState None (blobToResource 3))]"
    by (simp_all add: model_defs example_defs Let_def)
  show ?thesis
    using snapshot_cycle_bookkeeping [OF inv(1), of host0 demo_events 0 0]
      snapshot_cycle_bookkeeping [OF inv(2), of host0 "[]" 1 0]
      snapshot_cycle_bookkeeping [OF inv(3), of host0 "[]" 1 7]
      inv run stroke_sprite_facts pending_sprite_facts
    by (simp add: Let_def numeral_2_eq_2)
qed

text \<open>
  C2 as stated fails in its last clause: an edit that arrives while a cycle is pending
  does not arm the timer again. No timer call is made, the timer of 5000 ms stays as it is.
\<close>

theorem edit_while_pending_counterexample:
  "pendingPaintState stroke_sprite = Some 1 \<and> timers stroke_sprite = [(1, 5000)] \<and>
   timers (state_after (paint host0 stroke_sprite)) = [(1, 5000)] \<and>
   nextTimer (state_after (paint host0 stroke_sprite)) = nextTimer stroke_sprite \<and>
   timerCalls (calls stroke_sprite) = [SetTimeout 1 5000] \<and>
   timerCalls (calls (state_after (paint host0 stroke_sprite))) = [SetTimeout 1 5000]"
proof -
  note f = stroke_sprite_facts
  have "pendingPaintState stroke_sprite \<noteq> None"
    by (simp add: f)
  from paint_while_pending [OF this, of host0] show ?thesis
    by (simp add: f)
qed

text \<open>
  C3, as the code has it. Releasing a brush or eraser stroke commits at once when the
  \<^verbatim>\<open>lowMemory\<close> preference is not set: the timer is cleared, no cycle is pending and
  the encoding of the result is requested, whose completion enqueues the paint state.
  When the preference is set the release requests no commit and clears no timer: the
  cycle stays pending until its timer fires. Nothing is enqueued by the release itself.
\<close>

theorem release_commits_unless_lowMemory:
  assumes "down (brush s)" "toolType s = Some BRUSH \<or> toolType s = Some ERASER"
    and "drawSurface s = Some (Canvas w h True)"
  shows "\<exists>s'. handleRelease H x y s = Inr s' \<and> enqueued s' = enqueued s \<and>
     (if lowMemory H
      then pendingPaintState s' =
             Some (case pendingPaintState s of None \<Rightarrow> nextTimer s | Some t \<Rightarrow> t) \<and>
           timerCalls (new_calls s s') =
             (if pendingPaintState s = None then [SetTimeout (nextTimer s) 5000] else []) \<and>
           commitCalls (new_calls s s') = 0 \<and>
           commitTasks (tasks s') = commitTasks (tasks s)
      else pendingPaintState s' = None \<and>
           timerCalls (new_calls s s') =
             (if pendingPaintState s = None then [SetTimeout (nextTimer s) 5000] else []) @
             [ClearTimeout (case pendingPaintState s of None \<Rightarrow> nextTimer s | Some t \<Rightarrow> t)] \<and>
           commitCalls (new_calls s s') = 1 \<and>
           commitTasks (tasks s') = commitTasks (tasks s) + 1 \<and>
           last (tasks s') = EncodeResult (orgSourceToStore s) \<and>
           enqueued (completeTask (last (tasks s')) b s') =
             enqueued s @ [(''spritePaint_'' @ l_id (layer s),
                            PaintState (orgSourceToStore s) (blobToResource b))])"
proof -
  from handleRelease_live [OF assms, of H x y] obtain s' where rel:
    "handleRelease H x y s = Inr s'"
    "calls s' = calls s @ DisposeTempCanvas # before_stroke H s @
       [RenderBrushStroke (drawTarget s)
          ((brush s)\<lparr>down := False, last_cursor := 0,
             pointers := rotatePointerLists H (pointers (brush s)) (layer s) w h\<rparr>) None] @
       after_stroke s @
       (if lowMemory H then []
        else [ClearTimeout (case pendingPaintState s of None \<Rightarrow> nextTimer s | Some t \<Rightarrow> t),
              CanvasToBlob (EncodeResult (orgSourceToStore s))])"
    "layer s' = layer s" "enqueued s' = enqueued s"
    "pendingPaintState s' =
       (if lowMemory H
        then Some (case pendingPaintState s of None \<Rightarrow> nextTimer s | Some t \<Rightarrow> t)
        else None)"
    "tasks s' = tasks s @ (if pendingPaintState s = None then [EncodeOriginal] else []) @
                  (if rafFx s then [] else [RenderEffects]) @
                  (if lowMemory H then [] else [EncodeResult (orgSourceToStore s)])"
    by blast
  have tc: "timerCalls (before_stroke H s) =
      (if pendingPaintState s = None then [SetTimeout (nextTimer s) 5000] else [])"
    "timerCalls (after_stroke s) = []"
    by (simp_all add: before_stroke_def after_stroke_def obs_append paint_begin_obs)
  show ?thesis
    apply (rule exI [of _ s'])
    apply (simp add: rel new_calls_def obs_append stroke_obs tc completeTask_def
        enqueueState_def)
    done
qed

theorem release_commits_unless_lowMemory_witness:
  "down (brush stroke_sprite) \<and> toolType stroke_sprite = Some BRUSH \<and>
   drawSurface stroke_sprite = Some (Canvas 100 80 True) \<and> \<not> lowMemory host0 \<and>
   (\<exists>s'. handleRelease host0 14 11 stroke_sprite = Inr s' \<and> pendingPaintState s' = None \<and>
      commitCalls (new_calls stroke_sprite s') = 1 \<and> last (tasks s') = EncodeResult None)"
proof -
  note f = stroke_sprite_facts
  have tool: "toolType stroke_sprite = Some BRUSH \<or> toolType stroke_sprite = Some ERASER"
    by (simp add: f)
  have high: "\<not> lowMemory host0"
    by (simp add: host0_def)
  from release_commits_unless_lowMemory [OF f(1) tool f(3), of host0 14 11 0]
  show ?thesis
    using f(1-3) f(9) high by auto
qed

text \<open>
  C3 as stated fails: with the preference set the release of a stroke leaves the cycle
  pending and requests no commit; without it the release requests the commit.
\<close>

theorem release_lowMemory_counterexample:
  "lowMemory lowmem_host \<and> down (brush stroke_sprite) \<and>
   pendingPaintState (state_after (handleRelease lowmem_host 14 11 stroke_sprite)) = Some 1 \<and>
   commitCalls (new_calls stroke_sprite
      (state_after (handleRelease lowmem_host 14 11 stroke_sprite))) = 0 \<and>
   enqueued (state_after (handleRelease lowmem_host 14 11 stroke_sprite)) = [] \<and>
   \<not> lowMemory host0 \<and>
   pendingPaintState (state_after (handleRelease host0 14 11 stroke_sprite)) = None \<and>
   commitCalls (new_calls stroke_sprite
      (state_after (handleRelease host0 14 11 stroke_sprite))) = 1"
proof -
  note f = stroke_sprite_facts
  have tool: "toolType stroke_sprite = Some BRUSH \<or> toolType stroke_sprite = Some ERASER"
    by (simp add: f)
  have vals: "\<not> lowMemory host0" "lowMemory lowmem_host"
    by (simp_all add: host0_def lowmem_host_def)
  from handleRelease_live [OF f(1) tool f(3), of lowmem_host 14 11] obtain s1 where low:
    "handleRelease lowmem_host 14 11 stroke_sprite = Inr s1"
    "pendingPaintState s1 = Some 1" "enqueued s1 = []"
    "commitCalls (new_calls stroke_sprite s1) = 0"
    using vals f(4,7) by (auto simp add: new_calls_def obs_append stroke_obs)
  from handleRelease_live [OF f(1) tool f(3), of host0 14 11] obtain s2 where high:
    "handleRelease host0 14 11 stroke_sprite = Inr s2"
    "pendingPaintState s2 = None"
    "commitCalls (new_calls stroke_sprite s2) = 1"
    using vals f(4,7) by (auto simp add: new_calls_def obs_append stroke_obs)
  show ?thesis
    using f(1) vals low high by (simp add: state_after_def)
qed

text \<open>
  C4, as the code has it. \<^verbatim>\<open>paint\<close> asks exactly one surface for its context: the mask
  whenever the layer has one, whatever the action target is set to, and the source only
  when the layer has no mask. (It asks none when the surface chosen is missing or is an
  image element.)
\<close>

theorem paint_target_is_mask_when_maskable:
  "requested (new_calls (setActionTarget a s) (state_after (paint H (setActionTarget a s)))) =
     (case (if l_mask (layer s) = None then l_source (layer s) else l_mask (layer s)) of
        Some (Canvas w h live) \<Rightarrow> [if l_mask (layer s) = None then SourceCtx else MaskCtx]
      | _ \<Rightarrow> [])"
proof -
  have surface: "drawSurface (setActionTarget a s) =
          (if l_mask (layer s) = None then l_source (layer s) else l_mask (layer s))"
    and target: "drawTarget (setActionTarget a s) =
          (if l_mask (layer s) = None then SourceCtx else MaskCtx)"
    by (simp_all add: setActionTarget_def isMaskable_def drawSurface_def drawTarget_def)
  show ?thesis
    by (simp only: paint_requested surface target)
qed

text \<open>
  C4 as stated fails: on a maskable layer whose action target is the source,
  \<^verbatim>\<open>paint\<close> takes the context of the mask, not of the source.
\<close>

theorem paint_target_counterexample:
  "isMaskable masked_sprite \<and> actionTarget masked_sprite = ''source'' \<and>
   requested (new_calls masked_sprite (state_after (paint host0 masked_sprite))) = [MaskCtx]"
  using paint_requested [of masked_sprite host0]
  by (simp add: masked_sprite_def sprite0_def layer0_def isMaskable_def drawSurface_def
      drawTarget_def)

text \<open>
  C5, as the code has it. When the surface chosen gives no 2D context (it is missing, it
  is an image element, or it is a canvas whose \<^verbatim>\<open>getContext\<close> yields nothing),
  \<^verbatim>\<open>paint\<close> throws a \<^verbatim>\<open>TypeError\<close>. No drawing call is made; layer, brush, bounds,
  selection and history are as before; a snapshot cycle has been started if none was
  pending.
\<close>

theorem paint_without_context_throws:
  assumes "\<not> (\<exists>w h. drawSurface s = Some (Canvas w h True))"
  shows "\<exists>s'. paint H s = Inl (TypeError, s') \<and>
           new_calls s s' =
             (if pendingPaintState s = None
              then [CanvasToBlob EncodeOriginal, SetTimeout (nextTimer s) 5000] else []) @
             (case drawSurface s of
                Some (Canvas w h live) \<Rightarrow> [GetContext (drawTarget s)]
              | _ \<Rightarrow> []) \<and>
           layer s' = layer s \<and> brush s' = brush s \<and> bounds s' = bounds s \<and>
           selection s' = selection s \<and> enqueued s' = enqueued s \<and>
           pendingPaintState s' =
             (if pendingPaintState s = None then Some (nextTimer s) else pendingPaintState s)"
proof (cases "drawSurface s")
  case None
  then show ?thesis
    using paint_none [of s H]
    by (simp add: preparePendingPaintState_nf emit_def new_calls_def)
next
  case (Some sf)
  show ?thesis
  proof (cases sf)
    case ImageElement
    then show ?thesis
      using Some paint_none [of s H]
      by (simp add: preparePendingPaintState_nf emit_def new_calls_def)
  next
    case (Canvas w h live)
    then have dead: "drawSurface s = Some (Canvas w h False)"
      using Some assms by (cases live) simp_all
    show ?thesis
      using paint_dead [OF dead, of H] dead
      by (simp add: preparePendingPaintState_nf emit_def new_calls_def)
  qed
qed

theorem paint_without_context_throws_witness:
  "\<not> (\<exists>w h. drawSurface dead_sprite = Some (Canvas w h True)) \<and>
   (\<exists>s'. paint host0 dead_sprite = Inl (TypeError, s') \<and>
      new_calls dead_sprite s' =
        [CanvasToBlob EncodeOriginal, SetTimeout 1 5000, GetContext SourceCtx] \<and>
      pendingPaintState s' = Some 1)"
proof -
  have vals: "drawSurface dead_sprite = Some (Canvas 100 80 False)"
    "drawTarget dead_sprite = SourceCtx" "pendingPaintState dead_sprite = None"
    "nextTimer dead_sprite = 1"
    by (simp_all add: dead_sprite_def sprite0_def layer0_def drawSurface_def drawTarget_def
        isMaskable_def)
  have hyp: "\<not> (\<exists>w h. drawSurface dead_sprite = Some (Canvas w h True))"
    by (simp add: vals)
  from paint_without_context_throws [OF hyp, of host0]
  have "\<exists>s'. paint host0 dead_sprite = Inl (TypeError, s') \<and>
      new_calls dead_sprite s' =
        [CanvasToBlob EncodeOriginal, SetTimeout 1 5000, GetContext SourceCtx] \<and>
      pendingPaintState s' = Some 1"
    unfolding vals by (elim exE conjE, intro exI conjI) simp_all
  then show ?thesis
    using hyp by simp
qed

text \<open>
  C5 as stated fails: on a sprite whose source canvas yields no context, \<^verbatim>\<open>paint\<close>
  ends in an exception, and the sprite has a pending snapshot timer it did not have.
\<close>

theorem paint_without_context_counterexample:
  "drawSurface dead_sprite = Some (Canvas 100 80 False) \<and>
   isl (paint host0 dead_sprite) \<and>
   pendingPaintState dead_sprite = None \<and>
   pendingPaintState (state_after (paint host0 dead_sprite)) = Some 1"
proof -
  have surf: "drawSurface dead_sprite = Some (Canvas 100 80 False)"
    and pend: "pendingPaintState dead_sprite = None"
    and nxt: "nextTimer dead_sprite = 1"
    by (simp_all add: dead_sprite_def sprite0_def layer0_def drawSurface_def isMaskable_def)
  show ?thesis
    using paint_dead [OF surf, of host0] surf pend nxt
    by (simp add: state_after_def preparePendingPaintState_nf emit_def)
qed

text \<open>
  C6. Every point of the list handed to \<^verbatim>\<open>rotatePointerLists\<close> is replaced by its
  rotation about the centre at half the surface's width and height, taken relative to
  the layer's position; with \<^verbatim>\<open>mirrorX\<close> the whole width is subtracted from the rotated
  x (which differs from subtracting half of it on any surface of non-zero width), with
  \<^verbatim>\<open>mirrorY\<close> the whole height from the rotated y. The list keeps its length.
\<close>

theorem rotatePointerLists_mirror:
  assumes "i < length ps"
  shows "let q = translatePointerRotation H (px (ps ! i) - l_x L) (py (ps ! i) - l_y L)
                   (w * 0.5) (h * 0.5) (rotation (l_effects L));
             r = rotatePointerLists H ps L w h ! i
         in length (rotatePointerLists H ps L w h) = length ps \<and>
            px r = (if mirrorX (l_effects L) then px q - w else px q) \<and>
            py r = (if mirrorY (l_effects L) then py q - h else py q) \<and>
            (mirrorX (l_effects L) \<and> w \<noteq> 0 \<longrightarrow> px r \<noteq> px q - w * 0.5)"
  using assms
  by (simp add: rotatePointerLists_length rotatePointerLists_nth rotatePointer_def Let_def)

text \<open>
  The example of the specification: on a surface 100 wide, mirrored horizontally, the
  point at local x = 5 (15 on a layer at x = 10) goes to x = -95.
\<close>

theorem rotatePointerLists_mirror_witness:
  "(0::nat) < length [\<lparr>px = 15, py = 27\<rparr>] \<and>
   px (\<lparr>px = 15, py = 27\<rparr> :: point) - l_x mirrored_layer = 5 \<and>
   mirrorX (l_effects mirrored_layer) \<and>
   px (rotatePointerLists host0 [\<lparr>px = 15, py = 27\<rparr>] mirrored_layer 100 80 ! 0) = - 95 \<and>
   py (rotatePointerLists host0 [\<lparr>px = 15, py = 27\<rparr>] mirrored_layer 100 80 ! 0) = 7"
  using rotatePointerLists_mirror [of 0 "[\<lparr>px = 15, py = 27\<rparr>]" host0 mirrored_layer 100 80]
  by (simp add: host0_def mirrored_layer_def layer0_def Let_def)

text \<open>
  C7. \<^verbatim>\<open>setSelection\<close> stores the selection when it is closed and the layer allows
  drawing on a selection, and leaves the sprite as it is otherwise.
\<close>

theorem setSelection_guarded:
  "(isSelectionClosed H sel \<and> canDrawOnSelection H (layer s) \<longrightarrow>
      setSelection H sel s = s\<lparr>selection := sel\<rparr>) \<and>
   (\<not> (isSelectionClosed H sel \<and> canDrawOnSelection H (layer s)) \<longrightarrow>
      setSelection H sel s = s)"
  by (simp add: setSelection_def)

theorem setSelection_guarded_witness:
  "isSelectionClosed host0 (Some [\<lparr>px = 0, py = 0\<rparr>, \<lparr>px = 4, py = 0\<rparr>, \<lparr>px = 0, py = 0\<rparr>]) \<and>
   canDrawOnSelection host0 (layer sprite0) \<and>
   selection (setSelection host0
       (Some [\<lparr>px = 0, py = 0\<rparr>, \<lparr>px = 4, py = 0\<rparr>, \<lparr>px = 0, py = 0\<rparr>]) sprite0)
     = Some [\<lparr>px = 0, py = 0\<rparr>, \<lparr>px = 4, py = 0\<rparr>, \<lparr>px = 0, py = 0\<rparr>] \<and>
   \<not> isSelectionClosed host0 None \<and>
   setSelection host0 None (sprite0\<lparr>selection := Some []\<rparr>) = sprite0\<lparr>selection := Some []\<rparr>"
  using setSelection_guarded
      [of host0 "Some [\<lparr>px = 0, py = 0\<rparr>, \<lparr>px = 4, py = 0\<rparr>, \<lparr>px = 0, py = 0\<rparr>]" sprite0]
    setSelection_guarded [of host0 None "sprite0\<lparr>selection := Some []\<rparr>"]
  by (simp add: host0_def sprite0_def layer0_def)



text \<open>
  C9. \<^verbatim>\<open>setBounds\<close> hands the base class the old width and height when either is
  given as 0 (so the size stays, for a base class that stores the size it is given);
  the layer moves by the change of the bounds' left and top; one position state is
  enqueued, whose undo puts the sprite found for the layer back at the old left and top
  and the layer at its old position, and whose redo puts them at the new ones.
\<close>

theorem setBounds_effects:
  "let s' = setBounds H x y w h s
   in bounds s' =
        (if w = 0 \<or> h = 0
         then super_setBounds H x y (b_width (bounds s)) (b_height (bounds s)) (bounds s)
         else super_setBounds H x y w h (bounds s)) \<and>
      ((\<forall>x y w h b. b_width (super_setBounds H x y w h b) = w \<and>
                    b_height (super_setBounds H x y w h b) = h) \<and> (w = 0 \<or> h = 0) \<longrightarrow>
         b_width (bounds s') = b_width (bounds s) \<and> b_height (bounds s') = b_height (bounds s)) \<and>
      l_x (layer s') = l_x (layer s) + (b_left (bounds s') - b_left (bounds s)) \<and>
      l_y (layer s') = l_y (layer s) + (b_top (bounds s') - b_top (bounds s)) \<and>
      (\<exists>st. enqueued s' = enqueued s @ [(''spritePos_'' @ l_id (layer s), PosState st)] \<and>
         (\<forall>found r.
            b_left (bounds (pos_undo True st r)) = b_left (bounds s) \<and>
            b_top (bounds (pos_undo True st r)) = b_top (bounds s) \<and>
            l_x (layer (pos_undo found st r)) = l_x (layer s) \<and>
            l_y (layer (pos_undo found st r)) = l_y (layer s) \<and>
            b_left (bounds (pos_redo True st r)) = b_left (bounds s') \<and>
            b_top (bounds (pos_redo True st r)) = b_top (bounds s') \<and>
            l_x (layer (pos_redo found st r)) = l_x (layer s') \<and>
            l_y (layer (pos_redo found st r)) = l_y (layer s')))"
  by (simp add: setBounds_def Let_def invalidate_def emit_def enqueueState_def pos_undo_def
      pos_redo_def positionSpriteFromHistory_def)

theorem setBounds_effects_witness:
  "(\<forall>x y w h b. b_width (super_setBounds host0 x y w h b) = w \<and>
                  b_height (super_setBounds host0 x y w h b) = h) \<and>
   bounds (setBounds host0 30 40 0 0 sprite0) =
     \<lparr>b_left = 30, b_top = 40, b_width = 100, b_height = 80\<rparr> \<and>
   l_x (layer (setBounds host0 30 40 0 0 sprite0)) = 30 \<and>
   l_y (layer (setBounds host0 30 40 0 0 sprite0)) = 40 \<and>
   length (enqueued (setBounds host0 30 40 0 0 sprite0)) = 1"
  using setBounds_effects [of host0 30 40 0 0 sprite0]
  by (auto simp add: Let_def host0_def sprite0_def layer0_def)

text \<open>
  C10. With no snapshot cycle pending, \<^verbatim>\<open>storePaintState\<close> returns \<^verbatim>\<open>true\<close> and
  changes nothing; a change of tool in that state enqueues nothing, starts no encoding
  and leaves the timers alone.
\<close>

theorem storePaintState_idle:
  assumes "pendingPaintState s = None"
  shows "storePaintState s = (ReturnedBool True, s) \<and>
         enqueued (handleActiveTool H tk topts sel s) = enqueued s \<and>
         tasks (handleActiveTool H tk topts sel s) = tasks s \<and>
         timers (handleActiveTool H tk topts sel s) = timers s \<and>
         pendingPaintState (handleActiveTool H tk topts sel s) = None"
  using assms
  by (simp add: handleActiveTool_def storePaintState_def Let_def invalidate_def emit_def
      setDraggable_def setSelection_def cacheBrush_def forceMoveListener_def)

theorem storePaintState_idle_witness:
  "pendingPaintState sprite0 = None \<and>
   storePaintState sprite0 = (ReturnedBool True, sprite0) \<and>
   enqueued (handleActiveTool host0 (Some BRUSH) None None sprite0) = [] \<and>
   tasks (handleActiveTool host0 (Some BRUSH) None None sprite0) = []"
  using storePaintState_idle [of sprite0 host0 "Some BRUSH" None None]
  by (simp add: sprite0_def)

end
